theory Spec2Isabelle
  imports Main "HOL-Library.Char_ord" "HOL-Library.List_Lexorder" "HOL-Library.AList"
begin

section \<open>Python values, strings and dictionaries\<close>

text \<open>
  The script \<^verbatim>\<open>openapi-from-chrome/scripts/generate_openapi.py\<close> works on values decoded
  from JSON. A decoded value is one of Python's \<^verbatim>\<open>None\<close>, \<^verbatim>\<open>bool\<close>, \<^verbatim>\<open>int\<close>,
  \<^verbatim>\<open>float\<close>, \<^verbatim>\<open>str\<close>, \<^verbatim>\<open>list\<close> or \<^verbatim>\<open>dict\<close>; \<open>PObject\<close> stands for a value of
  any other class (the parameter of \<^verbatim>\<open>infer_schema_from_value\<close> is typed \<^verbatim>\<open>Any\<close>).
  A float \<open>PFloat m e\<close> is the double \<open>m * 2 ^ e\<close>; the script never looks inside it.

  A dictionary is an association list in insertion order whose keys are pairwise
  distinct: \<open>map_of d k\<close> reads a key, \<open>AList.update k v d\<close> is \<^verbatim>\<open>d[k] = v\<close> (an
  existing key keeps its place and gets the new value, a new key goes to the end),
  \<open>map snd d\<close> is \<^verbatim>\<open>list(d.values())\<close>.

  A string is a list of characters, and a character stands for the code point of
  the same number: the model is about texts whose code points are below 256. On
  these, length, order, the digit class of \<^verbatim>\<open>str.isdigit\<close> and \<^verbatim>\<open>str.lower\<close> are
  Python's. \<^verbatim>\<open>str.upper\<close> is Python's but on the two letters U+00B5 and U+00FF,
  whose capitals lie above 255; they are left as they are.
\<close>

datatype pyval =
    PNone
  | PBool bool
  | PInt int
  | PFloat int int
  | PStr string
  | PList "pyval list"
  | PDict "(string \<times> pyval) list"
  | PObject

definition dict_get :: "('k \<times> 'v) list \<Rightarrow> 'k \<Rightarrow> 'v \<Rightarrow> 'v" where
  "dict_get d k dflt = (case map_of d k of None \<Rightarrow> dflt | Some v \<Rightarrow> v)"

text \<open>\<^verbatim>\<open>sub in s\<close> for two strings: \<open>sub\<close> occurs in \<open>s\<close> as a contiguous run.\<close>

fun str_in :: "string \<Rightarrow> string \<Rightarrow> bool" where
  "str_in sub [] = (sub = [])"
| "str_in sub (c # s) = (take (length sub) (c # s) = sub \<or> str_in sub s)"

text \<open>\<^verbatim>\<open>s.split(sep)\<close> for a one-character separator, and \<^verbatim>\<open>sep.join(parts)\<close>.\<close>

fun split_on :: "char \<Rightarrow> string \<Rightarrow> string list" where
  "split_on sep [] = [[]]"
| "split_on sep (c # s) =
     (if c = sep then [] # split_on sep s
      else (case split_on sep s of
              [] \<Rightarrow> [[c]]
            | part # parts \<Rightarrow> (c # part) # parts))"

fun join :: "string \<Rightarrow> string list \<Rightarrow> string" where
  "join sep [] = []"
| "join sep [part] = part"
| "join sep (part # parts) = part @ sep @ join sep parts"

text \<open>The decimal digits \<^verbatim>\<open>0\<close> to \<^verbatim>\<open>9\<close>, and the characters that \<^verbatim>\<open>str.isdigit\<close>
  counts as digits: below 256 these are the decimal digits and the superscripts
  U+00B2, U+00B3 and U+00B9.\<close>

definition is_decimal :: "char \<Rightarrow> bool" where
  "is_decimal c = (CHR ''0'' \<le> c \<and> c \<le> CHR ''9'')"

definition is_digit :: "char \<Rightarrow> bool" where
  "is_digit c = (is_decimal c \<or> c = CHR 0xB2 \<or> c = CHR 0xB3 \<or> c = CHR 0xB9)"

text \<open>\<^verbatim>\<open>part.isdigit()\<close>: non-empty and every character a digit.\<close>

definition isdigit :: "string \<Rightarrow> bool" where
  "isdigit s = (s \<noteq> [] \<and> list_all is_digit s)"

text \<open>
  \<^verbatim>\<open>int(part)\<close> for a string that passed \<^verbatim>\<open>isdigit\<close>. The value of a string of decimal
  digits is \<open>int_value\<close>, an unbounded integer. \<^verbatim>\<open>int\<close> raises \<^verbatim>\<open>ValueError\<close> (\<open>None\<close>)
  on a character that is not a decimal digit, such as a superscript, and on more
  digits than \<open>max_str_digits\<close>, the interpreter's default limit for the conversion of
  a string to an integer.
\<close>

definition digit_val :: "char \<Rightarrow> int" where
  "digit_val c = int (of_char c) - 48"

definition int_value :: "string \<Rightarrow> int" where
  "int_value s = foldl (\<lambda>n c. 10 * n + digit_val c) 0 s"

definition max_str_digits :: nat where
  "max_str_digits = 4300"

definition int_of_str :: "string \<Rightarrow> int option" where
  "int_of_str s =
     (if s \<noteq> [] \<and> list_all is_decimal s \<and> length s \<le> max_str_digits
      then Some (int_value s) else None)"

text \<open>\<^verbatim>\<open>str(n)\<close> for an integer.\<close>

fun str_of_nat :: "nat \<Rightarrow> string" where
  "str_of_nat n =
     (if n < 10 then [char_of (48 + n)]
      else str_of_nat (n div 10) @ [char_of (48 + n mod 10)])"

definition str_of_int :: "int \<Rightarrow> string" where
  "str_of_int i = (if i < 0 then CHR ''-'' # str_of_nat (nat (- i)) else str_of_nat (nat i))"

text \<open>\<^verbatim>\<open>s.lower()\<close> and \<^verbatim>\<open>s.upper()\<close>. Below 256 the capital letters are \<^verbatim>\<open>A\<close> to \<^verbatim>\<open>Z\<close>
  and U+00C0 to U+00DE without the sign U+00D7; each small letter is 32 above its
  capital, and the capital of U+00DF is \<^verbatim>\<open>SS\<close>.\<close>

definition lower_char :: "char \<Rightarrow> char" where
  "lower_char c =
     (if (CHR ''A'' \<le> c \<and> c \<le> CHR ''Z'') \<or> (CHR 0xC0 \<le> c \<and> c \<le> CHR 0xDE \<and> c \<noteq> CHR 0xD7)
      then char_of (of_char c + (32::nat)) else c)"

definition upper_char :: "char \<Rightarrow> string" where
  "upper_char c =
     (if (CHR ''a'' \<le> c \<and> c \<le> CHR ''z'') \<or> (CHR 0xE0 \<le> c \<and> c \<le> CHR 0xFE \<and> c \<noteq> CHR 0xF7)
      then [char_of (of_char c - (32::nat))]
      else if c = CHR 0xDF then ''SS'' else [c])"

definition lower :: "string \<Rightarrow> string" where
  "lower s = map lower_char s"

definition upper :: "string \<Rightarrow> string" where
  "upper s = concat (map upper_char s)"

section \<open>The schema inferencer\<close>

text \<open>
  A schema is a dictionary with some of the keys \<^verbatim>\<open>type\<close>, \<^verbatim>\<open>format\<close>, \<^verbatim>\<open>items\<close>,
  \<^verbatim>\<open>properties\<close>, \<^verbatim>\<open>required\<close> and \<^verbatim>\<open>example\<close>: one optional field per key, \<open>None\<close>
  for a key that is absent. The empty dictionary \<^verbatim>\<open>{}\<close> has every field \<open>None\<close>;
  \<^verbatim>\<open>"example": None\<close> is \<open>Some PNone\<close>.
\<close>

datatype schema =
  Schema (s_type: "string option") (s_format: "string option") (s_items: "schema option")
    (s_properties: "(string \<times> schema) list option") (s_required: "string list option")
    (s_example: "pyval option")

text \<open>
  \<^verbatim>\<open>infer_schema_from_value(value, example)\<close>, the tests in the order of the source:
  \<^verbatim>\<open>None\<close>, \<^verbatim>\<open>bool\<close>, \<^verbatim>\<open>int\<close>, \<^verbatim>\<open>float\<close>, \<^verbatim>\<open>str\<close>, \<^verbatim>\<open>list\<close>, \<^verbatim>\<open>dict\<close>, and
  \<^verbatim>\<open>{"type": "string"}\<close> for anything else.
\<close>

fun infer_schema_from_value :: "pyval \<Rightarrow> bool \<Rightarrow> schema" where
  "infer_schema_from_value PNone example =
     Schema (Some ''null'') None None None None (if example then Some PNone else None)"
| "infer_schema_from_value (PBool b) example =
     Schema (Some ''boolean'') None None None None (if example then Some (PBool b) else None)"
| "infer_schema_from_value (PInt i) example =
     Schema (Some ''integer'') None None None None (if example then Some (PInt i) else None)"
| "infer_schema_from_value (PFloat m e) example =
     Schema (Some ''number'') None None None None (if example then Some (PFloat m e) else None)"
| "infer_schema_from_value (PStr s) example =
     Schema (Some ''string'') None None None None (if example then Some (PStr s) else None)"
| "infer_schema_from_value (PList []) example =
     Schema (Some ''array'') None (Some (Schema None None None None None None)) None None None"
| "infer_schema_from_value (PList (v # vs)) example =
     Schema (Some ''array'') None (Some (infer_schema_from_value v example)) None None
       (if example then Some (PList (v # vs)) else None)"
| "infer_schema_from_value (PDict kvs) example =
     Schema (Some ''object'') None None
       (Some (map (\<lambda>kv. (fst kv, infer_schema_from_value (snd kv) example)) kvs))
       (let required = map fst (filter (\<lambda>kv. snd kv \<noteq> PNone) kvs)
        in if required = [] then None else Some required)
       (if example then Some (PDict kvs) else None)"
| "infer_schema_from_value PObject example = Schema (Some ''string'') None None None None None"

section \<open>The standard library, as parameters\<close>

text \<open>
  \<^verbatim>\<open>urllib.parse.urlparse\<close>, \<^verbatim>\<open>urllib.parse.parse_qs\<close> and \<^verbatim>\<open>json.loads\<close> are not
  code of the repository. The script's functions take them as a parameter \<open>lib\<close>, and
  the theorems hold for every such library.
  \<^item> \<open>urlparse lib url\<close> is \<open>None\<close> when \<^verbatim>\<open>urlparse\<close> raises \<^verbatim>\<open>ValueError\<close>, else the
    fields of the result that the script reads.
  \<^item> \<open>parse_qs lib query\<close> is the dictionary from each key to the list of its values.
  \<^item> \<open>json_loads lib text\<close> is the decoded value, or \<^verbatim>\<open>json.JSONDecodeError\<close>, or any
    other exception (\<^verbatim>\<open>RecursionError\<close> on a text nested too deeply).
\<close>

record url_parts =
  u_scheme :: string
  u_netloc :: string
  u_path :: string
  u_query :: string

datatype loads_result = Decoded pyval | JSONDecodeError | OtherError

record pylib =
  urlparse :: "string \<Rightarrow> url_parts option"
  parse_qs :: "string \<Rightarrow> (string \<times> string list) list"
  json_loads :: "string \<Rightarrow> loads_result"

text \<open>A call either returns a value or raises; the script catches what is raised.\<close>

datatype 'a outcome = Raised | Returned 'a

section \<open>The path normalizer\<close>

text \<open>A parameter object of the output: \<^verbatim>\<open>name\<close>, \<^verbatim>\<open>in\<close>, \<^verbatim>\<open>required\<close> (path
  parameters only), \<^verbatim>\<open>schema\<close> and \<^verbatim>\<open>example\<close>.\<close>

record parameter =
  p_name :: string
  p_in :: string
  p_required :: "bool option"
  p_schema :: schema
  p_example :: pyval

text \<open>The two dictionary literals that \<^verbatim>\<open>normalize_path\<close> stores under \<^verbatim>\<open>"id"\<close>.\<close>

definition int_param :: "int \<Rightarrow> parameter" where
  "int_param n =
     \<lparr>p_name = ''id'', p_in = ''path'', p_required = Some True,
      p_schema = Schema (Some ''integer'') None None None None None,
      p_example = PInt n\<rparr>"

definition uuid_param :: "string \<Rightarrow> parameter" where
  "uuid_param part =
     \<lparr>p_name = ''id'', p_in = ''path'', p_required = Some True,
      p_schema = Schema (Some ''string'') (Some ''uuid'') None None None None,
      p_example = PStr part\<rparr>"

text \<open>The test of the \<^verbatim>\<open>elif\<close>:
  \<^verbatim>\<open>len(part) > 20 and ('-' in part or len(part) == 32)\<close>.\<close>

definition uuid_like :: "string \<Rightarrow> bool" where
  "uuid_like part = (length part > 20 \<and> (CHR ''-'' \<in> set part \<or> length part = 32))"

text \<open>The loop over \<^verbatim>\<open>path_parts\<close>, with \<^verbatim>\<open>normalized_parts\<close> and \<^verbatim>\<open>path_params\<close>
  as accumulators. It is left by the \<^verbatim>\<open>ValueError\<close> of \<^verbatim>\<open>int(part)\<close>.\<close>

fun normalize_parts ::
  "string list \<Rightarrow> string list \<Rightarrow> (string \<times> parameter) list
     \<Rightarrow> (string list \<times> (string \<times> parameter) list) outcome" where
  "normalize_parts [] normalized_parts path_params = Returned (normalized_parts, path_params)"
| "normalize_parts (part # rest) normalized_parts path_params =
     (if part = [] then normalize_parts rest (normalized_parts @ [part]) path_params
      else if isdigit part then
        (case int_of_str part of
           None \<Rightarrow> Raised
         | Some n \<Rightarrow>
             normalize_parts rest (normalized_parts @ [''{id}''])
               (AList.update ''id'' (int_param n) path_params))
      else if uuid_like part then
        normalize_parts rest (normalized_parts @ [''{id}''])
          (AList.update ''id'' (uuid_param part) path_params)
      else normalize_parts rest (normalized_parts @ [part]) path_params)"

text \<open>\<^verbatim>\<open>normalize_path\<close> raises when \<^verbatim>\<open>urlparse\<close> raises and when the loop does.\<close>

definition normalize_path ::
  "pylib \<Rightarrow> string \<Rightarrow> (string \<times> string \<times> (string \<times> parameter) list) outcome" where
  "normalize_path lib url =
     (case urlparse lib url of
        None \<Rightarrow> Raised
      | Some parsed \<Rightarrow>
          let base_url = u_scheme parsed @ ''://'' @ u_netloc parsed;
              path = u_path parsed;
              path_parts = split_on CHR ''/'' path
          in (case normalize_parts path_parts [] [] of
                Raised \<Rightarrow> Raised
              | Returned (normalized_parts, path_params) \<Rightarrow>
                  let normalized_path = join ''/'' normalized_parts
                  in Returned (base_url, normalized_path, path_params)))"

section \<open>The request parser\<close>

text \<open>
  A captured exchange is the dictionary \<^verbatim>\<open>request\<close>, with the keys the script reads:
  \<^verbatim>\<open>url\<close>, \<^verbatim>\<open>method\<close>, \<^verbatim>\<open>requestHeaders\<close>, \<^verbatim>\<open>postData\<close> and \<^verbatim>\<open>response\<close> (itself
  with \<^verbatim>\<open>status\<close>, \<^verbatim>\<open>headers\<close> and \<^verbatim>\<open>body\<close>). Every key may be absent (\<open>None\<close>);
  a key that is present holds a value of the type the input format gives it: strings,
  header dictionaries from strings to strings, an integer status.
\<close>

record response =
  rs_status :: "int option"
  rs_headers :: "(string \<times> string) list option"
  rs_body :: "string option"

record request =
  rq_url :: "string option"
  rq_method :: "string option"
  rq_requestHeaders :: "(string \<times> string) list option"
  rq_postData :: "string option"
  rq_response :: "response option"

text \<open>\<^verbatim>\<open>{"content": {"application/json": {"schema": ...}}}\<close>: the content dictionary
  from a media type to the schema stored under its \<^verbatim>\<open>schema\<close> key.\<close>

record request_body =
  rb_content :: "(string \<times> schema) list"

text \<open>One entry of the responses dictionary: \<^verbatim>\<open>description\<close> and, when the body was
  decoded, \<^verbatim>\<open>content\<close>.\<close>

record response_entry =
  re_description :: string
  re_content :: "(string \<times> schema) list option"

type_synonym responses = "(string \<times> response_entry) list"

text \<open>The dictionary that \<^verbatim>\<open>parse_network_request\<close> returns.\<close>

record parsed =
  pr_base_url :: string
  pr_path :: string
  pr_method :: string
  pr_path_params :: "parameter list"
  pr_query_params :: "parameter list"
  pr_request_body :: "request_body option"
  pr_responses :: responses

definition static_exts :: "string list" where
  "static_exts = [''.css'', ''.js'', ''.png'', ''.jpg'', ''.gif'', ''.svg'', ''.woff'', ''.ttf'']"

text \<open>\<^verbatim>\<open>any(ext in url for ext in [...])\<close>.\<close>

definition is_static :: "string \<Rightarrow> bool" where
  "is_static url = list_ex (\<lambda>ext. str_in ext url) static_exts"

text \<open>\<^verbatim>\<open>request.get("url", "")\<close> and \<^verbatim>\<open>request.get("method", "GET").lower()\<close>.\<close>

definition url_of :: "request \<Rightarrow> string" where
  "url_of request = (case rq_url request of None \<Rightarrow> [] | Some u \<Rightarrow> u)"

definition method_of :: "request \<Rightarrow> string" where
  "method_of request = lower (case rq_method request of None \<Rightarrow> ''GET'' | Some m \<Rightarrow> m)"

definition query_param_spec :: "string \<times> string list \<Rightarrow> parameter" where
  "query_param_spec kv =
     \<lparr>p_name = fst kv, p_in = ''query'', p_required = None,
      p_schema = Schema (Some ''string'') None None None None None,
      p_example = PStr (case snd kv of [] \<Rightarrow> [] | v # _ \<Rightarrow> v)\<rparr>"

definition generic_responses :: responses where
  "generic_responses =
     [(''200'', \<lparr>re_description = ''Successful response'', re_content = None\<rparr>)]"

text \<open>
  The block \<^verbatim>\<open># Parse request body\<close> of \<^verbatim>\<open>parse_network_request\<close>. The body is
  read only when \<^verbatim>\<open>postData\<close> is present and not empty and the header found under
  the key \<^verbatim>\<open>content-type\<close> contains \<^verbatim>\<open>application/json\<close>. A \<^verbatim>\<open>JSONDecodeError\<close> is
  passed over; any other exception leaves the block.
\<close>

definition parse_request_body :: "pylib \<Rightarrow> request \<Rightarrow> request_body option outcome" where
  "parse_request_body lib request =
     (let request_headers = (case rq_requestHeaders request of None \<Rightarrow> [] | Some h \<Rightarrow> h);
          content_type = dict_get request_headers ''content-type'' []
      in case rq_postData request of
           None \<Rightarrow> Returned None
         | Some post_data \<Rightarrow>
             if post_data = [] then Returned None
             else if str_in ''application/json'' content_type then
               (case json_loads lib post_data of
                  Decoded body_json \<Rightarrow>
                    Returned (Some \<lparr>rb_content =
                      [(''application/json'', infer_schema_from_value body_json False)]\<rparr>)
                | JSONDecodeError \<Rightarrow> Returned None
                | OtherError \<Rightarrow> Raised)
             else Returned None)"

text \<open>
  The block \<^verbatim>\<open># Parse response\<close>: \<^verbatim>\<open>response_spec\<close> stays \<^verbatim>\<open>None\<close> unless the body is
  present, not empty, announced as JSON under the key \<^verbatim>\<open>content-type\<close>, and decoded;
  \<^verbatim>\<open>if not response_spec\<close> then puts the generic entry in its place.
\<close>

definition parse_response :: "pylib \<Rightarrow> request \<Rightarrow> responses outcome" where
  "parse_response lib request =
     (let response = (case rq_response request of
                        None \<Rightarrow> \<lparr>rs_status = None, rs_headers = None, rs_body = None\<rparr>
                      | Some r \<Rightarrow> r);
          response_status = (case rs_status response of None \<Rightarrow> 200 | Some st \<Rightarrow> st);
          response_content_type =
            dict_get (case rs_headers response of None \<Rightarrow> [] | Some h \<Rightarrow> h) ''content-type'' [];
          response_spec =
            (case rs_body response of
               None \<Rightarrow> Returned None
             | Some response_body \<Rightarrow>
                 if response_body = [] then Returned None
                 else if str_in ''application/json'' response_content_type then
                   (case json_loads lib response_body of
                      Decoded response_json \<Rightarrow>
                        Returned (Some [(str_of_int response_status,
                          \<lparr>re_description = ''Successful response'',
                           re_content = Some [(''application/json'',
                             infer_schema_from_value response_json False)]\<rparr>)])
                    | JSONDecodeError \<Rightarrow> Returned None
                    | OtherError \<Rightarrow> Raised)
                 else Returned None)
      in case response_spec of
           Raised \<Rightarrow> Raised
         | Returned None \<Rightarrow> Returned generic_responses
         | Returned (Some spec) \<Rightarrow> Returned spec)"

text \<open>
  \<^verbatim>\<open>parse_network_request\<close>: \<open>None\<close> is Python's \<^verbatim>\<open>None\<close>, returned for a static
  asset and from the handler \<^verbatim>\<open>except Exception\<close> around the whole body.
\<close>

definition parse_network_request :: "pylib \<Rightarrow> request \<Rightarrow> parsed option" where
  "parse_network_request lib request =
     (let url = url_of request;
          method = method_of request
      in if is_static url then None
         else
           (case normalize_path lib url of
              Raised \<Rightarrow> None
            | Returned (base_url, path, path_params) \<Rightarrow>
                (case urlparse lib url of
                   None \<Rightarrow> None
                 | Some parsed_url \<Rightarrow>
                     let query_params = parse_qs lib (u_query parsed_url);
                         query_param_specs = map query_param_spec query_params
                     in (case parse_request_body lib request of
                           Raised \<Rightarrow> None
                         | Returned request_body \<Rightarrow>
                             (case parse_response lib request of
                                Raised \<Rightarrow> None
                              | Returned response_spec \<Rightarrow>
                                  Some \<lparr>pr_base_url = base_url, pr_path = path,
                                        pr_method = method,
                                        pr_path_params = map snd path_params,
                                        pr_query_params = query_param_specs,
                                        pr_request_body = request_body,
                                        pr_responses = response_spec\<rparr>)))))"

section \<open>The aggregator\<close>

text \<open>An operation object: \<^verbatim>\<open>summary\<close> and \<^verbatim>\<open>responses\<close> always, \<^verbatim>\<open>parameters\<close> and
  \<^verbatim>\<open>requestBody\<close> when the key was set.\<close>

record operation =
  op_summary :: string
  op_responses :: responses
  op_parameters :: "parameter list option"
  op_requestBody :: "request_body option"

text \<open>The list \<^verbatim>\<open>parameters\<close> built from a parsed exchange: path parameters, then
  query parameters.\<close>

definition parameters_of :: "parsed \<Rightarrow> parameter list" where
  "parameters_of p =
     (if pr_path_params p \<noteq> [] then pr_path_params p else []) @
     (if pr_query_params p \<noteq> [] then pr_query_params p else [])"

text \<open>The dictionary \<^verbatim>\<open>operation\<close> built from a parsed exchange.\<close>

definition operation_of :: "parsed \<Rightarrow> operation" where
  "operation_of p =
     (let parameters = parameters_of p
      in \<lparr>op_summary = upper (pr_method p) @ '' '' @ pr_path p,
          op_responses = pr_responses p,
          op_parameters = (if parameters \<noteq> [] then Some parameters else None),
          op_requestBody = pr_request_body p\<rparr>)"

text \<open>
  The branch \<^verbatim>\<open>if method in paths[path]\<close>: \<^verbatim>\<open>existing_params\<close> is the dictionary from
  name to parameter of the stored list; each parameter of the new exchange whose name
  is not a key yet is added; a non-empty dictionary replaces the stored list.
\<close>

definition existing_params_of :: "operation \<Rightarrow> (string \<times> parameter) list" where
  "existing_params_of stored =
     foldl (\<lambda>d p. AList.update (p_name p) p d) []
       (case op_parameters stored of None \<Rightarrow> [] | Some ps \<Rightarrow> ps)"

definition add_param :: "(string \<times> parameter) list \<Rightarrow> parameter \<Rightarrow> (string \<times> parameter) list" where
  "add_param existing_params param =
     (if map_of existing_params (p_name param) = None
      then AList.update (p_name param) param existing_params
      else existing_params)"

definition merge_operation :: "operation \<Rightarrow> parameter list \<Rightarrow> operation" where
  "merge_operation stored parameters =
     (let existing_params = foldl add_param (existing_params_of stored) parameters
      in if existing_params \<noteq> []
         then stored\<lparr>op_parameters := Some (map snd existing_params)\<rparr>
         else stored)"

text \<open>The state of the loop: \<^verbatim>\<open>paths\<close> (path to method to operation, both levels in
  insertion order) and the set \<^verbatim>\<open>servers\<close>.\<close>

record acc =
  acc_paths :: "(string \<times> (string \<times> operation) list) list"
  acc_servers :: "string set"

definition acc_empty :: acc where
  "acc_empty = \<lparr>acc_paths = [], acc_servers = {}\<rparr>"

text \<open>One round of \<^verbatim>\<open>for request in requests\<close>. Reading \<^verbatim>\<open>paths[path]\<close> of the
  \<^verbatim>\<open>defaultdict\<close> gives the empty dictionary for a new path.\<close>

definition aggregate_step :: "pylib \<Rightarrow> acc \<Rightarrow> request \<Rightarrow> acc" where
  "aggregate_step lib st request =
     (case parse_network_request lib request of
        None \<Rightarrow> st
      | Some p \<Rightarrow>
          let servers = insert (pr_base_url p) (acc_servers st);
              path = pr_path p;
              method = pr_method p;
              operation = operation_of p;
              methods = dict_get (acc_paths st) path []
          in (case map_of methods method of
                Some stored \<Rightarrow>
                  \<lparr>acc_paths = AList.update path
                     (AList.update method (merge_operation stored (parameters_of p)) methods)
                     (acc_paths st),
                   acc_servers = servers\<rparr>
              | None \<Rightarrow>
                  \<lparr>acc_paths = AList.update path (AList.update method operation methods)
                     (acc_paths st),
                   acc_servers = servers\<rparr>))"

fun aggregate :: "pylib \<Rightarrow> acc \<Rightarrow> request list \<Rightarrow> acc" where
  "aggregate lib st [] = st"
| "aggregate lib st (request # requests) = aggregate lib (aggregate_step lib st request) requests"

text \<open>The document: \<^verbatim>\<open>openapi\<close>, the three fields of \<^verbatim>\<open>info\<close>, \<^verbatim>\<open>servers\<close> (the
  \<^verbatim>\<open>url\<close> of each entry) and \<^verbatim>\<open>paths\<close>.\<close>

record spec =
  sp_openapi :: string
  sp_title :: string
  sp_version :: string
  sp_description :: string
  sp_servers :: "string list"
  sp_paths :: "(string \<times> (string \<times> operation) list) list"

definition generate_openapi_spec :: "pylib \<Rightarrow> request list \<Rightarrow> string \<Rightarrow> string \<Rightarrow> spec" where
  "generate_openapi_spec lib requests title version =
     (let st = aggregate lib acc_empty requests
      in \<lparr>sp_openapi = ''3.0.0'',
          sp_title = title,
          sp_version = version,
          sp_description = ''API specification generated from Chrome DevTools network requests'',
          sp_servers = sorted_list_of_set (acc_servers st),
          sp_paths = sort_key fst (acc_paths st)\<rparr>)"

text \<open>
  Three notions used to state what the loop does. \<open>stored_operation\<close> reads
  \<^verbatim>\<open>paths[path][method]\<close> when both keys are present. \<open>frame\<close> is the part of an
  operation outside its parameter list. \<open>new_params seen parameters\<close> are the
  parameters whose name is neither in \<open>seen\<close> nor the name of an earlier one of them:
  the ones a merge appends.
\<close>

definition stored_operation :: "acc \<Rightarrow> string \<Rightarrow> string \<Rightarrow> operation option" where
  "stored_operation st path method =
     (case map_of (acc_paths st) path of None \<Rightarrow> None | Some methods \<Rightarrow> map_of methods method)"

definition frame :: "operation \<Rightarrow> string \<times> responses \<times> request_body option" where
  "frame operation = (op_summary operation, op_responses operation, op_requestBody operation)"

fun new_params :: "string list \<Rightarrow> parameter list \<Rightarrow> parameter list" where
  "new_params seen [] = []"
| "new_params seen (param # parameters) =
     (if p_name param \<in> set seen then new_params seen parameters
      else param # new_params (seen @ [p_name param]) parameters)"


section \<open>A reference library for concrete exchanges\<close>

text \<open>
  To run the script on concrete exchanges the three library functions are given
  executable stand-ins. Each follows the library's algorithm on a fragment of its
  inputs, and is used below only at inputs of that fragment:
  \<^item> \<open>ref_urlparse\<close> splits as \<^verbatim>\<open>urlsplit\<close> does: a scheme before the first colon,
    a network location after \<^verbatim>\<open>//\<close>, then fragment and query; for URLs without
    whitespace, control characters or \<^verbatim>\<open>;\<close>;
  \<^item> \<open>ref_parse_qs\<close> splits at \<^verbatim>\<open>&\<close> and at the first \<^verbatim>\<open>=\<close>, drops blank values and
    collects the values of a key in order; for query strings without \<^verbatim>\<open>%\<close> escapes;
  \<^item> \<open>ref_json_loads\<close> decodes JSON texts whose numbers are integers and whose
    strings have no escapes.
\<close>

definition is_alpha :: "char \<Rightarrow> bool" where
  "is_alpha c = ((CHR ''a'' \<le> c \<and> c \<le> CHR ''z'') \<or> (CHR ''A'' \<le> c \<and> c \<le> CHR ''Z''))"

definition is_scheme_char :: "char \<Rightarrow> bool" where
  "is_scheme_char c = (is_alpha c \<or> is_decimal c \<or> c = CHR ''+'' \<or> c = CHR ''-'' \<or> c = CHR ''.'')"

definition ref_urlparse :: "string \<Rightarrow> url_parts option" where
  "ref_urlparse url =
     (let pre = takeWhile (\<lambda>c. c \<noteq> CHR '':'') url;
          has_scheme = (CHR '':'' \<in> set url \<and> pre \<noteq> [] \<and> is_alpha (hd pre)
                        \<and> list_all is_scheme_char pre);
          scheme = (if has_scheme then lower pre else []);
          url1 = (if has_scheme then drop (Suc (length pre)) url else url);
          has_netloc = (take 2 url1 = ''//'');
          netloc = (if has_netloc then takeWhile (\<lambda>c. c \<notin> set ''/?#'') (drop 2 url1) else []);
          url2 = (if has_netloc then dropWhile (\<lambda>c. c \<notin> set ''/?#'') (drop 2 url1) else url1);
          url3 = takeWhile (\<lambda>c. c \<noteq> CHR ''#'') url2;
          path = takeWhile (\<lambda>c. c \<noteq> CHR ''?'') url3;
          query = drop 1 (dropWhile (\<lambda>c. c \<noteq> CHR ''?'') url3)
      in if (CHR ''['' \<in> set netloc) \<noteq> (CHR '']'' \<in> set netloc) then None
         else Some \<lparr>u_scheme = scheme, u_netloc = netloc, u_path = path, u_query = query\<rparr>)"

definition qs_pair :: "string \<Rightarrow> string \<times> string" where
  "qs_pair name_value =
     (let unplus = map (\<lambda>c. if c = CHR ''+'' then CHR '' '' else c)
      in (unplus (takeWhile (\<lambda>c. c \<noteq> CHR ''='') name_value),
          unplus (drop 1 (dropWhile (\<lambda>c. c \<noteq> CHR ''='') name_value))))"

definition qs_add :: "(string \<times> string list) list \<Rightarrow> string \<times> string \<Rightarrow> (string \<times> string list) list" where
  "qs_add d kv =
     (case map_of d (fst kv) of
        None \<Rightarrow> AList.update (fst kv) [snd kv] d
      | Some vs \<Rightarrow> AList.update (fst kv) (vs @ [snd kv]) d)"

definition ref_parse_qs :: "string \<Rightarrow> (string \<times> string list) list" where
  "ref_parse_qs qs =
     foldl qs_add []
       (filter (\<lambda>kv. snd kv \<noteq> [])
          (map qs_pair (filter (\<lambda>name_value. name_value \<noteq> []) (split_on CHR ''&'' qs))))"

definition is_ws :: "char \<Rightarrow> bool" where
  "is_ws c = (c = CHR '' '' \<or> c = CHR 0x09 \<or> c = CHR 0x0A \<or> c = CHR 0x0D)"

definition skip_ws :: "string \<Rightarrow> string" where
  "skip_ws s = dropWhile is_ws s"

text \<open>The text after an opening quote, up to the closing one.\<close>

definition scan_string :: "string \<Rightarrow> (string \<times> string) option" where
  "scan_string s =
     (let body = takeWhile (\<lambda>c. c \<noteq> CHR 0x22) s;
          rest = dropWhile (\<lambda>c. c \<noteq> CHR 0x22) s
      in if rest = [] \<or> list_ex (\<lambda>c. c = CHR 0x5C \<or> c < CHR '' '') body then None
         else Some (body, drop 1 rest))"

definition scan_int :: "string \<Rightarrow> (int \<times> string) option" where
  "scan_int s =
     (let neg = (take 1 s = ''-'');
          t = (if neg then drop 1 s else s);
          ds = takeWhile is_decimal t;
          rest = dropWhile is_decimal t
      in if ds = [] \<or> (length ds > 1 \<and> hd ds = CHR ''0'')
            \<or> list_ex (\<lambda>c. c = CHR ''.'' \<or> c = CHR ''e'' \<or> c = CHR ''E'') (take 1 rest)
         then None
         else Some (if neg then - int_value ds else int_value ds, rest))"

text \<open>A value that is not an array or an object.\<close>

definition decode_scalar :: "string \<Rightarrow> (pyval \<times> string) option" where
  "decode_scalar s =
     (if take 4 s = ''null'' then Some (PNone, drop 4 s)
      else if take 4 s = ''true'' then Some (PBool True, drop 4 s)
      else if take 5 s = ''false'' then Some (PBool False, drop 5 s)
      else if take 1 s = [CHR 0x22] then
        (case scan_string (drop 1 s) of
           None \<Rightarrow> None
         | Some (str, rest) \<Rightarrow> Some (PStr str, rest))
      else
        (case scan_int s of
           None \<Rightarrow> None
         | Some (i, rest) \<Rightarrow> Some (PInt i, rest)))"

text \<open>What follows an array item or an object member: a comma, the closing bracket, or
  neither.\<close>

datatype after = Comma string | Close string | Neither

definition after_item :: "char \<Rightarrow> string \<Rightarrow> after" where
  "after_item close rest =
     (if take 1 (skip_ws rest) = '','' then Comma (skip_ws (drop 1 (skip_ws rest)))
      else if take 1 (skip_ws rest) = [close] then Close (drop 1 (skip_ws rest))
      else Neither)"

text \<open>The quoted key of an object member and its colon.\<close>

definition member_key :: "string \<Rightarrow> (string \<times> string) option" where
  "member_key s =
     (if take 1 s = [CHR 0x22] then
        (case scan_string (drop 1 s) of
           None \<Rightarrow> None
         | Some (k, rest) \<Rightarrow>
             if take 1 (skip_ws rest) = '':'' then Some (k, skip_ws (drop 1 (skip_ws rest)))
             else None)
      else None)"

text \<open>Recursive descent. \<open>decode_rest\<close> reads the remaining items of an array or members
  of an object, given those read so far. The first argument bounds the depth of the
  calls; twice the length of the text is enough, since every second call consumes a
  character.\<close>

datatype pending = Items "pyval list" | Members "(string \<times> pyval) list"

fun decode_value :: "nat \<Rightarrow> string \<Rightarrow> (pyval \<times> string) option"
  and decode_rest :: "nat \<Rightarrow> pending \<Rightarrow> string \<Rightarrow> (pyval \<times> string) option"
  where
  "decode_value 0 s = None"
| "decode_value (Suc n) s =
     (if take 1 s = ''['' then
        (if take 1 (skip_ws (drop 1 s)) = '']'' then Some (PList [], drop 1 (skip_ws (drop 1 s)))
         else decode_rest n (Items []) (skip_ws (drop 1 s)))
      else if take 1 s = ''{'' then
        (if take 1 (skip_ws (drop 1 s)) = ''}'' then Some (PDict [], drop 1 (skip_ws (drop 1 s)))
         else decode_rest n (Members []) (skip_ws (drop 1 s)))
      else decode_scalar s)"
| "decode_rest 0 p s = None"
| "decode_rest (Suc n) (Items items) s =
     (case decode_value n s of
        None \<Rightarrow> None
      | Some (v, rest) \<Rightarrow>
          (case after_item CHR '']'' rest of
             Comma rest' \<Rightarrow> decode_rest n (Items (items @ [v])) rest'
           | Close rest' \<Rightarrow> Some (PList (items @ [v]), rest')
           | Neither \<Rightarrow> None))"
| "decode_rest (Suc n) (Members members) s =
     (case member_key s of
        None \<Rightarrow> None
      | Some (k, rest) \<Rightarrow>
          (case decode_value n rest of
             None \<Rightarrow> None
           | Some (v, rest') \<Rightarrow>
               (case after_item CHR ''}'' rest' of
                  Comma rest'' \<Rightarrow> decode_rest n (Members (AList.update k v members)) rest''
                | Close rest'' \<Rightarrow> Some (PDict (AList.update k v members), rest'')
                | Neither \<Rightarrow> None)))"

definition ref_json_loads :: "string \<Rightarrow> loads_result" where
  "ref_json_loads s =
     (case decode_value (2 * length s + 2) (skip_ws s) of
        None \<Rightarrow> JSONDecodeError
      | Some (v, rest) \<Rightarrow> if skip_ws rest = [] then Decoded v else JSONDecodeError)"

definition ref_lib :: pylib where
  "ref_lib = \<lparr>urlparse = ref_urlparse, parse_qs = ref_parse_qs, json_loads = ref_json_loads\<rparr>"

section \<open>Example exchanges\<close>

text \<open>\<^verbatim>\<open>{"url": "https://api.example.com/users/3?id=5"}\<close>: a numeric path segment and
  a query key \<^verbatim>\<open>id\<close>.\<close>

definition get_user_with_id_query :: request where
  "get_user_with_id_query =
     \<lparr>rq_url = Some ''https://api.example.com/users/3?id=5'', rq_method = None,
      rq_requestHeaders = None, rq_postData = None, rq_response = None\<rparr>"

text \<open>A \<^verbatim>\<open>POST\<close> announced as JSON in both directions whose request text \<^verbatim>\<open>{\<close> and
  response text \<^verbatim>\<open>not json\<close> are not JSON.\<close>

definition post_with_bad_json :: request where
  "post_with_bad_json =
     \<lparr>rq_url = Some ''https://api.example.com/items'', rq_method = Some ''POST'',
      rq_requestHeaders = Some [(''content-type'', ''application/json'')],
      rq_postData = Some ''{'',
      rq_response = Some \<lparr>rs_status = Some 201,
        rs_headers = Some [(''content-type'', ''application/json'')],
        rs_body = Some ''not json''\<rparr>\<rparr>"

text \<open>A \<^verbatim>\<open>POST\<close> whose headers name the JSON media type under \<^verbatim>\<open>Content-Type\<close>, with
  the JSON texts \<^verbatim>\<open>[1, 2]\<close> and \<^verbatim>\<open>[true]\<close> as bodies; and the same exchange with the
  keys in lower case.\<close>

definition post_with_capital_headers :: request where
  "post_with_capital_headers =
     \<lparr>rq_url = Some ''https://api.example.com/items'', rq_method = Some ''POST'',
      rq_requestHeaders = Some [(''Content-Type'', ''application/json'')],
      rq_postData = Some ''[1, 2]'',
      rq_response = Some \<lparr>rs_status = Some 201,
        rs_headers = Some [(''Content-Type'', ''application/json'')],
        rs_body = Some ''[true]''\<rparr>\<rparr>"

definition post_with_lower_headers :: request where
  "post_with_lower_headers =
     \<lparr>rq_url = Some ''https://api.example.com/items'', rq_method = Some ''POST'',
      rq_requestHeaders = Some [(''content-type'', ''application/json'')],
      rq_postData = Some ''[1, 2]'',
      rq_response = Some \<lparr>rs_status = Some 201,
        rs_headers = Some [(''content-type'', ''application/json'')],
        rs_body = Some ''[true]''\<rparr>\<rparr>"

text \<open>A request for an image; one whose URL has \<^verbatim>\<open>.js\<close> inside \<^verbatim>\<open>data.json\<close>; and a
  plain \<^verbatim>\<open>GET\<close> with a query string.\<close>

definition get_logo_png :: request where
  "get_logo_png =
     \<lparr>rq_url = Some ''https://cdn.example.com/logo.png'', rq_method = Some ''GET'',
      rq_requestHeaders = None, rq_postData = None, rq_response = None\<rparr>"

definition get_data_json :: request where
  "get_data_json =
     \<lparr>rq_url = Some ''https://api.example.com/v1/data.json?page=1'', rq_method = Some ''GET'',
      rq_requestHeaders = None, rq_postData = None, rq_response = None\<rparr>"

definition get_orders :: request where
  "get_orders =
     \<lparr>rq_url = Some ''http://localhost:8080/orders?page=2'', rq_method = Some ''GET'',
      rq_requestHeaders = None, rq_postData = None, rq_response = None\<rparr>"

section \<open>Strings\<close>

text \<open>\<open>str_in\<close> is the substring test: \<open>sub\<close> is in \<open>s\<close> exactly when \<open>s\<close> is some
  prefix, then \<open>sub\<close>, then some suffix.\<close>

lemma str_in_iff: "str_in sub s \<longleftrightarrow> (\<exists>pre post. s = pre @ sub @ post)"
proof (induction s)
  case Nil
  show ?case by auto
next
  case (Cons c s)
  have pre: "take (length sub) (c # s) = sub \<longleftrightarrow> (\<exists>post. c # s = sub @ post)"
    by (metis append_eq_conv_conj)
  show ?case
  proof
    assume "str_in sub (c # s)"
    then consider "take (length sub) (c # s) = sub" | "str_in sub s" by auto
    then show "\<exists>pre post. c # s = pre @ sub @ post"
    proof cases
      case 1
      then obtain post where "c # s = sub @ post" using pre by blast
      then have "c # s = [] @ sub @ post" by simp
      then show ?thesis by blast
    next
      case 2
      then obtain pre' post where "s = pre' @ sub @ post" using Cons.IH by blast
      then have "c # s = (c # pre') @ sub @ post" by simp
      then show ?thesis by blast
    qed
  next
    assume "\<exists>pre post. c # s = pre @ sub @ post"
    then obtain pre' post where eq: "c # s = pre' @ sub @ post" by blast
    show "str_in sub (c # s)"
    proof (cases pre')
      case Nil
      then have "take (length sub) (c # s) = sub" using eq pre by auto
      then show ?thesis by simp
    next
      case (Cons d pre'')
      then have "s = pre'' @ sub @ post" using eq by simp
      then have "str_in sub s" using Cons.IH by blast
      then show ?thesis by simp
    qed
  qed
qed

section \<open>Schema inference\<close>

text \<open>
  Claim C4. For every JSON scalar the inferred schema has the type of the value's own
  class, and a boolean is tested before an integer: \<^verbatim>\<open>true\<close> and \<^verbatim>\<open>false\<close> get
  \<^verbatim>\<open>boolean\<close> (not \<^verbatim>\<open>integer\<close>), an integer \<^verbatim>\<open>integer\<close>, a float \<^verbatim>\<open>number\<close>, a string
  \<^verbatim>\<open>string\<close> and \<^verbatim>\<open>null\<close> gets \<^verbatim>\<open>null\<close>, whatever the example flag.
\<close>

theorem infer_scalar_kinds:
  "s_type (infer_schema_from_value (PBool b) example) = Some ''boolean''
   \<and> s_type (infer_schema_from_value (PBool b) example) \<noteq> Some ''integer''
   \<and> s_type (infer_schema_from_value (PInt i) example) = Some ''integer''
   \<and> s_type (infer_schema_from_value (PFloat m e) example) = Some ''number''
   \<and> s_type (infer_schema_from_value (PStr s) example) = Some ''string''
   \<and> s_type (infer_schema_from_value PNone example) = Some ''null''"
  by simp

theorem infer_scalar_kinds_witness:
  "s_type (infer_schema_from_value (PBool True) True) = Some ''boolean''
   \<and> s_type (infer_schema_from_value (PBool True) True) \<noteq> Some ''integer''
   \<and> s_type (infer_schema_from_value (PInt 1) True) = Some ''integer''
   \<and> s_type (infer_schema_from_value (PFloat 3 (-1)) True) = Some ''number''
   \<and> s_type (infer_schema_from_value (PStr ''Ann'') True) = Some ''string''
   \<and> s_type (infer_schema_from_value PNone True) = Some ''null''"
  by (rule infer_scalar_kinds)

text \<open>
  Claim C5. For every non-empty array \<open>A\<close> and either value of the example flag, the
  item schema of the schema inferred for \<open>A\<close> is the schema inferred for its first
  element with the same flag; the other elements play no part.
\<close>

theorem infer_array_items:
  "A \<noteq> [] \<Longrightarrow>
   s_items (infer_schema_from_value (PList A) example)
     = Some (infer_schema_from_value (hd A) example)"
  by (cases A) simp_all

theorem infer_array_items_witness:
  "[PInt 1, PStr ''two'', PNone] \<noteq> []
   \<and> s_items (infer_schema_from_value (PList [PInt 1, PStr ''two'', PNone]) False)
       = Some (Schema (Some ''integer'') None None None None None)"
  using infer_array_items [of "[PInt 1, PStr ''two'', PNone]" False] by simp

section \<open>The parser and the loop of the aggregator\<close>

text \<open>What a returned descriptor says about the exchange, and how one round of the loop
  changes the servers and the keys of \<^verbatim>\<open>paths\<close>.\<close>

lemma parse_static: "is_static (url_of request) \<Longrightarrow> parse_network_request lib request = None"
  by (simp add: parse_network_request_def)

lemma parse_SomeD:
  assumes "parse_network_request lib request = Some p"
  shows "\<not> is_static (url_of request)"
    and "\<exists>u. urlparse lib (url_of request) = Some u
            \<and> pr_base_url p = u_scheme u @ ''://'' @ u_netloc u"
    and "parse_request_body lib request = Returned (pr_request_body p)"
    and "parse_response lib request = Returned (pr_responses p)"
    and "pr_method p = method_of request"
  using assms
  by (auto simp: parse_network_request_def normalize_path_def Let_def
      split: if_splits option.splits outcome.splits prod.splits)

lemma aggregate_step_skip:
  "parse_network_request lib request = None \<Longrightarrow> aggregate_step lib st request = st"
  by (simp add: aggregate_step_def)

lemma aggregate_append:
  "aggregate lib st (xs @ ys) = aggregate lib (aggregate lib st xs) ys"
  by (induction xs arbitrary: st) simp_all

lemma aggregate_step_servers:
  "acc_servers (aggregate_step lib st request) =
     (case parse_network_request lib request of
        None \<Rightarrow> acc_servers st
      | Some p \<Rightarrow> insert (pr_base_url p) (acc_servers st))"
  by (simp add: aggregate_step_def Let_def split: option.splits)

lemma aggregate_servers:
  "acc_servers (aggregate lib st requests) =
     acc_servers st \<union>
       {pr_base_url p |p r. r \<in> set requests \<and> parse_network_request lib r = Some p}"
proof (induction requests arbitrary: st)
  case Nil
  show ?case by simp
next
  case (Cons r requests)
  show ?case
    by (cases "parse_network_request lib r")
       (auto simp: Cons.IH aggregate_step_servers)
qed

lemma aggregate_step_keys:
  "fst ` set (acc_paths (aggregate_step lib st request)) =
     (case parse_network_request lib request of
        None \<Rightarrow> fst ` set (acc_paths st)
      | Some p \<Rightarrow> insert (pr_path p) (fst ` set (acc_paths st)))"
  by (simp add: aggregate_step_def Let_def dom_update split: option.splits)

lemma aggregate_step_distinct:
  "distinct (map fst (acc_paths st)) \<Longrightarrow>
   distinct (map fst (acc_paths (aggregate_step lib st request)))"
  by (simp add: aggregate_step_def Let_def distinct_update split: option.splits)

lemma aggregate_keys:
  "fst ` set (acc_paths (aggregate lib st requests)) =
     fst ` set (acc_paths st) \<union>
       {pr_path p |p r. r \<in> set requests \<and> parse_network_request lib r = Some p}"
proof (induction requests arbitrary: st)
  case Nil
  show ?case by simp
next
  case (Cons r requests)
  show ?case
    by (cases "parse_network_request lib r")
       (auto simp: Cons.IH aggregate_step_keys)
qed

lemma aggregate_distinct:
  "distinct (map fst (acc_paths st)) \<Longrightarrow>
   distinct (map fst (acc_paths (aggregate lib st requests)))"
  by (induction requests arbitrary: st) (simp_all add: aggregate_step_distinct)

lemma finite_aggregate_servers:
  "finite (acc_servers st) \<Longrightarrow> finite (acc_servers (aggregate lib st requests))"
  by (induction requests arbitrary: st)
     (simp_all add: aggregate_step_servers split: option.splits)

lemma origins_eq:
  "{pr_base_url p |p r. r \<in> set requests \<and> parse_network_request lib r = Some p} =
   {u_scheme u @ ''://'' @ u_netloc u |u r. r \<in> set requests
      \<and> parse_network_request lib r \<noteq> None \<and> urlparse lib (url_of r) = Some u}"
  (is "?L = ?R")
proof
  show "?L \<subseteq> ?R"
  proof
    fix x assume "x \<in> ?L"
    then obtain p r where r: "r \<in> set requests" "parse_network_request lib r = Some p"
      and x: "x = pr_base_url p" by blast
    from parse_SomeD(2)[OF r(2)] obtain u where
      "urlparse lib (url_of r) = Some u" "pr_base_url p = u_scheme u @ ''://'' @ u_netloc u"
      by blast
    with r x show "x \<in> ?R" by force
  qed
  show "?R \<subseteq> ?L"
  proof
    fix x assume "x \<in> ?R"
    then obtain u r where r: "r \<in> set requests" "parse_network_request lib r \<noteq> None"
      "urlparse lib (url_of r) = Some u" and x: "x = u_scheme u @ ''://'' @ u_netloc u"
      by blast
    from r(2) obtain p where p: "parse_network_request lib r = Some p" by blast
    from parse_SomeD(2)[OF p] r(3) have "pr_base_url p = x" using x by simp
    with r(1) p show "x \<in> ?L" by blast
  qed
qed

section \<open>Static assets\<close>

text \<open>
  Claim C8. When the URL of an exchange contains one of \<^verbatim>\<open>.css\<close>, \<^verbatim>\<open>.js\<close>, \<^verbatim>\<open>.png\<close>,
  \<^verbatim>\<open>.jpg\<close>, \<^verbatim>\<open>.gif\<close>, \<^verbatim>\<open>.svg\<close>, \<^verbatim>\<open>.woff\<close>, \<^verbatim>\<open>.ttf\<close> anywhere (the URL is some
  text, the extension, some text), the parser returns \<^verbatim>\<open>None\<close>, the round of the loop
  leaves paths and servers as they were, and the document generated from a list with
  the exchange in it is the document generated from the list without it.
\<close>

theorem static_asset_skipped:
  assumes "rq_url request = Some (pre @ ext @ post)"
      and "ext \<in> set [''.css'', ''.js'', ''.png'', ''.jpg'', ''.gif'', ''.svg'', ''.woff'', ''.ttf'']"
  shows "parse_network_request lib request = None
       \<and> aggregate_step lib st request = st
       \<and> generate_openapi_spec lib (before @ request # after) title version
           = generate_openapi_spec lib (before @ after) title version"
proof -
  have "str_in ext (url_of request)"
    using assms(1) by (auto simp: str_in_iff url_of_def)
  then have "is_static (url_of request)"
    using assms(2) unfolding is_static_def static_exts_def list_ex_iff by blast
  then have none: "parse_network_request lib request = None"
    by (rule parse_static)
  then have step: "aggregate_step lib st' request = st'" for st'
    by (rule aggregate_step_skip)
  have "aggregate lib acc_empty (before @ request # after)
      = aggregate lib acc_empty (before @ after)"
    by (simp add: aggregate_append step)
  then show ?thesis
    using none step by (simp add: generate_openapi_spec_def)
qed

theorem static_asset_skipped_witness:
  "rq_url get_data_json = Some (''https://api.example.com/v1/data'' @ ''.js'' @ ''on?page=1'')
   \<and> parse_network_request ref_lib get_data_json = None
   \<and> aggregate_step ref_lib acc_empty get_data_json = acc_empty
   \<and> generate_openapi_spec ref_lib ([get_orders] @ get_data_json # [post_with_lower_headers])
         ''Generated API'' ''1.0.0''
       = generate_openapi_spec ref_lib ([get_orders] @ [post_with_lower_headers])
         ''Generated API'' ''1.0.0''"
proof -
  have u: "rq_url get_data_json
      = Some (''https://api.example.com/v1/data'' @ ''.js'' @ ''on?page=1'')"
    by (simp add: get_data_json_def)
  have e: "''.js'' \<in> set [''.css'', ''.js'', ''.png'', ''.jpg'', ''.gif'', ''.svg'', ''.woff'', ''.ttf'']"
    by simp
  show ?thesis
    using u static_asset_skipped [OF u e, where lib = ref_lib and st = acc_empty
        and before = "[get_orders]" and after = "[post_with_lower_headers]"
        and title = "''Generated API''" and version = "''1.0.0''"]
    by blast
qed

section \<open>Servers and paths of the document\<close>

text \<open>
  Claim C9. The servers of the document are the origins \<^verbatim>\<open>scheme://netloc\<close> of the
  exchanges that the parser did not skip, each once, in ascending lexicographic
  order; and the paths of the document are in ascending lexicographic order (each
  once, and they are the paths of the parsed exchanges).
\<close>

theorem servers_and_paths_sorted:
  fixes doc :: spec
  assumes "doc = generate_openapi_spec lib requests title version"
  shows "sp_servers doc = sorted_list_of_set
           {u_scheme u @ ''://'' @ u_netloc u |u r. r \<in> set requests
              \<and> parse_network_request lib r \<noteq> None \<and> urlparse lib (url_of r) = Some u}
       \<and> set (sp_servers doc) =
           {u_scheme u @ ''://'' @ u_netloc u |u r. r \<in> set requests
              \<and> parse_network_request lib r \<noteq> None \<and> urlparse lib (url_of r) = Some u}
       \<and> distinct (sp_servers doc) \<and> sorted (sp_servers doc)
       \<and> sorted (map fst (sp_paths doc)) \<and> distinct (map fst (sp_paths doc))
       \<and> set (map fst (sp_paths doc)) =
           {pr_path p |p r. r \<in> set requests \<and> parse_network_request lib r = Some p}"
proof -
  let ?st = "aggregate lib acc_empty requests"
  have servers: "acc_servers ?st =
      {u_scheme u @ ''://'' @ u_netloc u |u r. r \<in> set requests
         \<and> parse_network_request lib r \<noteq> None \<and> urlparse lib (url_of r) = Some u}"
    using aggregate_servers[of lib acc_empty requests] origins_eq[of requests lib]
    by (simp add: acc_empty_def)
  have fin: "finite (acc_servers ?st)"
    by (rule finite_aggregate_servers) (simp add: acc_empty_def)
  have sv: "sp_servers doc = sorted_list_of_set (acc_servers ?st)"
    and pt: "sp_paths doc = sort_key fst (acc_paths ?st)"
    using assms by (simp_all add: generate_openapi_spec_def Let_def)
  have dist: "distinct (map fst (acc_paths ?st))"
    by (rule aggregate_distinct) (simp add: acc_empty_def)
  have keys: "fst ` set (acc_paths ?st) =
      {pr_path p |p r. r \<in> set requests \<and> parse_network_request lib r = Some p}"
    using aggregate_keys[of lib acc_empty requests] by (simp add: acc_empty_def)
  have "sorted (map fst (sort_key fst (acc_paths ?st)))" by simp
  moreover have "distinct (map fst (sort_key fst (acc_paths ?st)))"
    using dist by (simp add: distinct_map)
  moreover have "set (map fst (sort_key fst (acc_paths ?st))) = fst ` set (acc_paths ?st)"
    by simp
  ultimately show ?thesis
    using servers fin sv pt keys by simp
qed

theorem servers_and_paths_sorted_witness:
  "sp_servers (generate_openapi_spec ref_lib
       [post_with_lower_headers, get_orders, get_logo_png, get_user_with_id_query, get_orders]
       ''Generated API'' ''1.0.0'')
     = [''http://localhost:8080'', ''https://api.example.com'']
   \<and> distinct [''http://localhost:8080'', ''https://api.example.com'']
   \<and> sorted [''http://localhost:8080'', ''https://api.example.com'']
   \<and> map fst (sp_paths (generate_openapi_spec ref_lib
       [post_with_lower_headers, get_orders, get_logo_png, get_user_with_id_query, get_orders]
       ''Generated API'' ''1.0.0''))
     = [''/items'', ''/orders'', ''/users/{id}'']
   \<and> sorted [''/items'', ''/orders'', ''/users/{id}'']"
proof -
  let ?doc = "generate_openapi_spec ref_lib
       [post_with_lower_headers, get_orders, get_logo_png, get_user_with_id_query, get_orders]
       ''Generated API'' ''1.0.0''"
  have s: "sp_servers ?doc = [''http://localhost:8080'', ''https://api.example.com'']"
    by code_simp
  have p: "map fst (sp_paths ?doc) = [''/items'', ''/orders'', ''/users/{id}'']"
    by code_simp
  have "distinct (sp_servers ?doc) \<and> sorted (sp_servers ?doc)
      \<and> sorted (map fst (sp_paths ?doc))"
    using servers_and_paths_sorted [OF refl, of ref_lib
        "[post_with_lower_headers, get_orders, get_logo_png, get_user_with_id_query, get_orders]"
        "''Generated API''" "''1.0.0''"]
    by blast
  then show ?thesis
    unfolding s p using s p by blast
qed

section \<open>Responses that cannot be decoded\<close>

lemma parse_response_generic:
  assumes "rq_response request = Some r" and "rs_body r = Some body"
      and "(\<forall>v. json_loads lib body \<noteq> Decoded v)
           \<or> \<not> str_in ''application/json''
                 (dict_get (case rs_headers r of None \<Rightarrow> [] | Some h \<Rightarrow> h) ''content-type'' [])"
      and "parse_response lib request = Returned rsp"
  shows "rsp = generic_responses"
  using assms
  by (auto simp: parse_response_def Let_def split: if_splits loads_result.splits)

text \<open>
  Claim C7. For an exchange that the parser does not skip and whose response has a
  body, if the body is not decoded as JSON or the header found under \<^verbatim>\<open>content-type\<close>
  does not contain \<^verbatim>\<open>application/json\<close>, the responses of the descriptor (and of the
  operation built from it) are exactly the one entry \<^verbatim>\<open>"200"\<close> with the description
  \<^verbatim>\<open>Successful response\<close>, whatever the status and the body were.
\<close>

theorem undecodable_response_generic:
  assumes "parse_network_request lib request = Some p"
      and "rq_response request = Some r" and "rs_body r = Some body"
      and "(\<forall>v. json_loads lib body \<noteq> Decoded v)
           \<or> \<not> str_in ''application/json''
                 (dict_get (case rs_headers r of None \<Rightarrow> [] | Some h \<Rightarrow> h) ''content-type'' [])"
  shows "pr_responses p =
           [(''200'', \<lparr>re_description = ''Successful response'', re_content = None\<rparr>)]
       \<and> op_responses (operation_of p) =
           [(''200'', \<lparr>re_description = ''Successful response'', re_content = None\<rparr>)]"
proof -
  have "parse_response lib request = Returned (pr_responses p)"
    using assms(1) by (rule parse_SomeD(4))
  then have "pr_responses p = generic_responses"
    using parse_response_generic[OF assms(2,3,4)] by blast
  then show ?thesis
    by (simp add: generic_responses_def operation_of_def Let_def)
qed

theorem undecodable_response_generic_witness:
  "rq_response post_with_bad_json
     = Some \<lparr>rs_status = Some 201,
             rs_headers = Some [(''content-type'', ''application/json'')],
             rs_body = Some ''not json''\<rparr>
   \<and> json_loads ref_lib ''not json'' = JSONDecodeError
   \<and> map_option pr_responses (parse_network_request ref_lib post_with_bad_json)
       = Some [(''200'', \<lparr>re_description = ''Successful response'', re_content = None\<rparr>)]"
proof -
  let ?p = "\<lparr>pr_base_url = ''https://api.example.com'', pr_path = ''/items'',
     pr_method = ''post'', pr_path_params = [], pr_query_params = [],
     pr_request_body = None,
     pr_responses =
       [(''200'', \<lparr>re_description = ''Successful response'', re_content = None\<rparr>)]\<rparr>"
  let ?r = "\<lparr>rs_status = Some 201,
             rs_headers = Some [(''content-type'', ''application/json'')],
             rs_body = Some ''not json''\<rparr>"
  have p: "parse_network_request ref_lib post_with_bad_json = Some ?p"
    by code_simp
  have r: "rq_response post_with_bad_json = Some ?r"
    by (simp add: post_with_bad_json_def)
  have b: "rs_body ?r = Some ''not json''"
    by simp
  have j: "json_loads ref_lib ''not json'' = JSONDecodeError"
    by code_simp
  then have c: "(\<forall>v. json_loads ref_lib ''not json'' \<noteq> Decoded v)
      \<or> \<not> str_in ''application/json''
           (dict_get (case rs_headers ?r of None \<Rightarrow> [] | Some h \<Rightarrow> h) ''content-type'' [])"
    by simp
  from undecodable_response_generic [OF p r b c] r j p show ?thesis
    by simp
qed

section \<open>The header key is looked up exactly\<close>

lemma dict_get_absent: "k \<notin> fst ` set d \<Longrightarrow> dict_get d k dflt = dflt"
proof -
  assume "k \<notin> fst ` set d"
  then have "map_of d k = None" by (simp add: map_of_eq_None_iff)
  then show ?thesis by (simp add: dict_get_def)
qed

text \<open>
  Claim C10. The content type is read with the exact key \<^verbatim>\<open>content-type\<close>. When the
  request headers have no such key (the media type stands under \<^verbatim>\<open>Content-Type\<close>,
  say), the descriptor has no request body, whatever \<^verbatim>\<open>postData\<close> holds; when the
  response headers have no such key, the responses are the generic \<^verbatim>\<open>"200"\<close> entry.
\<close>

theorem content_type_lookup_exact:
  assumes "parse_network_request lib request = Some p"
  shows "(rq_requestHeaders request = Some hs \<and> ''content-type'' \<notin> fst ` set hs
            \<longrightarrow> pr_request_body p = None \<and> op_requestBody (operation_of p) = None)
       \<and> (rq_response request = Some r \<and> rs_headers r = Some rhs
            \<and> ''content-type'' \<notin> fst ` set rhs
            \<longrightarrow> pr_responses p =
                  [(''200'', \<lparr>re_description = ''Successful response'', re_content = None\<rparr>)])"
proof (intro conjI impI)
  assume h: "rq_requestHeaders request = Some hs \<and> ''content-type'' \<notin> fst ` set hs"
  have "parse_request_body lib request = Returned (pr_request_body p)"
    using assms by (rule parse_SomeD(3))
  then show "pr_request_body p = None"
    using h by (auto simp: parse_request_body_def Let_def dict_get_absent
        split: option.splits if_splits)
  then show "op_requestBody (operation_of p) = None"
    by (simp add: operation_of_def Let_def)
next
  assume h: "rq_response request = Some r \<and> rs_headers r = Some rhs
            \<and> ''content-type'' \<notin> fst ` set rhs"
  have "parse_response lib request = Returned (pr_responses p)"
    using assms by (rule parse_SomeD(4))
  then have "pr_responses p = generic_responses"
    using h by (auto simp: parse_response_def Let_def dict_get_absent
        split: option.splits if_splits)
  then show "pr_responses p =
      [(''200'', \<lparr>re_description = ''Successful response'', re_content = None\<rparr>)]"
    by (simp add: generic_responses_def)
qed

theorem content_type_lookup_exact_witness:
  "rq_requestHeaders post_with_capital_headers = Some [(''Content-Type'', ''application/json'')]
   \<and> ''content-type'' \<notin> fst ` set [(''Content-Type'', ''application/json'')]
   \<and> json_loads ref_lib ''[1, 2]'' = Decoded (PList [PInt 1, PInt 2])
   \<and> map_option pr_request_body (parse_network_request ref_lib post_with_capital_headers)
       = Some None
   \<and> map_option pr_responses (parse_network_request ref_lib post_with_capital_headers)
       = Some [(''200'', \<lparr>re_description = ''Successful response'', re_content = None\<rparr>)]
   \<and> map_option pr_request_body (parse_network_request ref_lib post_with_lower_headers)
       = Some (Some \<lparr>rb_content = [(''application/json'',
           Schema (Some ''array'') None (Some (Schema (Some ''integer'') None None None None None))
             None None None)]\<rparr>)"
proof -
  let ?p = "\<lparr>pr_base_url = ''https://api.example.com'', pr_path = ''/items'',
     pr_method = ''post'', pr_path_params = [], pr_query_params = [],
     pr_request_body = None,
     pr_responses =
       [(''200'', \<lparr>re_description = ''Successful response'', re_content = None\<rparr>)]\<rparr>"
  let ?r = "\<lparr>rs_status = Some 201,
             rs_headers = Some [(''Content-Type'', ''application/json'')],
             rs_body = Some ''[true]''\<rparr>"
  have p: "parse_network_request ref_lib post_with_capital_headers = Some ?p"
    by code_simp
  have h: "rq_requestHeaders post_with_capital_headers
      = Some [(''Content-Type'', ''application/json'')]"
    and r: "rq_response post_with_capital_headers = Some ?r"
    by (simp_all add: post_with_capital_headers_def)
  have k: "''content-type'' \<notin> fst ` set [(''Content-Type'', ''application/json'')]"
    by simp
  have j: "json_loads ref_lib ''[1, 2]'' = Decoded (PList [PInt 1, PInt 2])"
    by code_simp
  have l: "map_option pr_request_body (parse_network_request ref_lib post_with_lower_headers)
       = Some (Some \<lparr>rb_content = [(''application/json'',
           Schema (Some ''array'') None (Some (Schema (Some ''integer'') None None None None None))
             None None None)]\<rparr>)"
    by code_simp
  from content_type_lookup_exact [OF p, of "[(''Content-Type'', ''application/json'')]" ?r
      "[(''Content-Type'', ''application/json'')]"] h r k
  have "pr_request_body ?p = None
      \<and> pr_responses ?p =
          [(''200'', \<lparr>re_description = ''Successful response'', re_content = None\<rparr>)]"
    by simp
  with p h k j l show ?thesis
    by simp
qed

section \<open>Path parameters\<close>

text \<open>The loop of the normalizer raises exactly when \<^verbatim>\<open>int\<close> rejects a segment that
  passed \<^verbatim>\<open>isdigit\<close>; otherwise it replaces every segment that is all digits or
  looks like a UUID, and keeps the parameter of the last such segment.\<close>

lemma empty_part_plain: "\<not> isdigit [] \<and> \<not> uuid_like []"
  by (simp add: isdigit_def uuid_like_def)

lemma int_of_str_value: "int_of_str part = Some n \<Longrightarrow> n = int_value part"
  by (simp add: int_of_str_def split: if_splits)

lemma int_rejects_iff:
  "isdigit part \<Longrightarrow>
   int_of_str part = None \<longleftrightarrow> \<not> list_all is_decimal part \<or> length part > 4300"
  by (auto simp: int_of_str_def isdigit_def max_str_digits_def)

lemma normalize_parts_raised_iff:
  "normalize_parts parts normalized_parts path_params = Raised \<longleftrightarrow>
     list_ex (\<lambda>part. isdigit part \<and> int_of_str part = None) parts"
proof (induction parts arbitrary: normalized_parts path_params)
  case Nil
  show ?case by simp
next
  case (Cons part parts)
  show ?case
  proof (cases "part = []")
    case True
    then show ?thesis
      using empty_part_plain by (simp add: Cons.IH)
  next
    case False
    then show ?thesis
      by (cases "int_of_str part") (simp_all add: Cons.IH)
  qed
qed

lemma normalize_parts_returned:
  assumes "path_params = [] \<or> (\<exists>x. path_params = [(''id'', x)])"
      and "\<not> list_ex (\<lambda>part. isdigit part \<and> int_of_str part = None) parts"
  shows "normalize_parts parts normalized_parts path_params =
     Returned
       (normalized_parts @
          map (\<lambda>part. if isdigit part \<or> uuid_like part then ''{id}'' else part) parts,
        let q = filter (\<lambda>part. isdigit part \<or> uuid_like part) parts
        in if q = [] then path_params
           else [(''id'', if isdigit (last q) then int_param (int_value (last q))
                          else uuid_param (last q))])"
  using assms
proof (induction parts arbitrary: normalized_parts path_params)
  case Nil
  show ?case by simp
next
  case (Cons part parts)
  have upd: "AList.update ''id'' v path_params = [(''id'', v)]" for v
    using Cons.prems(1) by auto
  have rest: "\<not> list_ex (\<lambda>part. isdigit part \<and> int_of_str part = None) parts"
    using Cons.prems(2) by simp
  show ?case
  proof (cases "isdigit part \<or> uuid_like part")
    case False
    then show ?thesis
      using Cons.IH[OF Cons.prems(1) rest] by (simp add: Let_def)
  next
    case True
    then have ne: "part \<noteq> []"
      using empty_part_plain by auto
    show ?thesis
    proof (cases "isdigit part")
      case True
      then have "int_of_str part \<noteq> None"
        using Cons.prems(2) by simp
      then have i: "int_of_str part = Some (int_value part)"
        using int_of_str_value by (cases "int_of_str part") auto
      have "normalize_parts (part # parts) normalized_parts path_params =
          normalize_parts parts (normalized_parts @ [''{id}''])
            [(''id'', int_param (int_value part))]"
        using True ne by (simp add: upd i)
      also have "\<dots> =
          Returned
           ((normalized_parts @ [''{id}'']) @
              map (\<lambda>part. if isdigit part \<or> uuid_like part then ''{id}'' else part) parts,
            let q = filter (\<lambda>part. isdigit part \<or> uuid_like part) parts
            in if q = [] then [(''id'', int_param (int_value part))]
               else [(''id'', if isdigit (last q) then int_param (int_value (last q))
                              else uuid_param (last q))])"
        by (rule Cons.IH) (simp_all add: rest)
      finally show ?thesis
        using True by (simp add: Let_def)
    next
      case False
      with \<open>isdigit part \<or> uuid_like part\<close> have u: "uuid_like part" by simp
      have "normalize_parts (part # parts) normalized_parts path_params =
          normalize_parts parts (normalized_parts @ [''{id}'']) [(''id'', uuid_param part)]"
        using False u ne by (simp add: upd)
      also have "\<dots> =
          Returned
           ((normalized_parts @ [''{id}'']) @
              map (\<lambda>part. if isdigit part \<or> uuid_like part then ''{id}'' else part) parts,
            let q = filter (\<lambda>part. isdigit part \<or> uuid_like part) parts
            in if q = [] then [(''id'', uuid_param part)]
               else [(''id'', if isdigit (last q) then int_param (int_value (last q))
                              else uuid_param (last q))])"
        by (rule Cons.IH) (simp_all add: rest)
      finally show ?thesis
        using False u by (simp add: Let_def)
    qed
  qed
qed

lemma normalize_path_eq:
  "normalize_path lib url =
     (case urlparse lib url of
        None \<Rightarrow> Raised
      | Some u \<Rightarrow>
          if list_ex (\<lambda>part. isdigit part \<and> int_of_str part = None)
               (split_on CHR ''/'' (u_path u))
          then Raised
          else Returned
            (u_scheme u @ ''://'' @ u_netloc u,
             join ''/''
               (map (\<lambda>part. if isdigit part \<or> uuid_like part then ''{id}'' else part)
                  (split_on CHR ''/'' (u_path u))),
             let q = filter (\<lambda>part. isdigit part \<or> uuid_like part)
                       (split_on CHR ''/'' (u_path u))
             in if q = [] then []
                else [(''id'', if isdigit (last q) then int_param (int_value (last q))
                               else uuid_param (last q))]))"
proof (cases "urlparse lib url")
  case None
  then show ?thesis by (simp add: normalize_path_def)
next
  case (Some u)
  let ?parts = "split_on CHR ''/'' (u_path u)"
  show ?thesis
  proof (cases "list_ex (\<lambda>part. isdigit part \<and> int_of_str part = None) ?parts")
    case True
    then have "normalize_parts ?parts [] [] = Raised"
      by (simp only: normalize_parts_raised_iff)
    then show ?thesis
      using Some True by (simp add: normalize_path_def Let_def)
  next
    case False
    have "normalize_parts ?parts [] [] =
      Returned
       ([] @ map (\<lambda>part. if isdigit part \<or> uuid_like part then ''{id}'' else part) ?parts,
        let q = filter (\<lambda>part. isdigit part \<or> uuid_like part) ?parts
        in if q = [] then []
           else [(''id'', if isdigit (last q) then int_param (int_value (last q))
                          else uuid_param (last q))])"
      by (rule normalize_parts_returned) (simp_all add: False)
    then show ?thesis
      using Some False by (simp add: normalize_path_def Let_def)
  qed
qed

lemma split_on_no_sep: "sep \<notin> set s \<Longrightarrow> split_on sep s = [s]"
  by (induction s) auto

text \<open>
  Claim C6, as amended. For every URL the normalizer either raises, exactly when
  \<^verbatim>\<open>urlparse\<close> raises or \<^verbatim>\<open>int\<close> rejects an all-digit segment of the path, or returns
  the origin, the path and at most one path parameter, always named \<^verbatim>\<open>id\<close>. The
  tests are made in the order of the claim: each all-digit segment becomes \<^verbatim>\<open>{id}\<close>
  with an integer-typed parameter whose example is the segment's integer value; each
  other segment longer than 20 characters that has a hyphen or is of length exactly
  32 becomes \<^verbatim>\<open>{id}\<close> with a string/uuid-typed parameter whose example is the segment;
  the parameter of the last such segment is the one that stays. So
  \<^verbatim>\<open>/users/3/orders/77\<close> gives \<^verbatim>\<open>/users/{id}/orders/{id}\<close> and the single parameter
  \<^verbatim>\<open>id\<close> with example 77.
\<close>

theorem normalize_path_single_id:
  "normalize_path lib url =
     (case urlparse lib url of
        None \<Rightarrow> Raised
      | Some u \<Rightarrow>
          if list_ex (\<lambda>part. isdigit part \<and> int_of_str part = None)
               (split_on CHR ''/'' (u_path u))
          then Raised
          else Returned
            (u_scheme u @ ''://'' @ u_netloc u,
             join ''/''
               (map (\<lambda>part. if isdigit part \<or> uuid_like part then ''{id}'' else part)
                  (split_on CHR ''/'' (u_path u))),
             let q = filter (\<lambda>part. isdigit part \<or> uuid_like part)
                       (split_on CHR ''/'' (u_path u))
             in if q = [] then []
                else [(''id'', if isdigit (last q) then int_param (int_value (last q))
                               else uuid_param (last q))]))
   \<and> (\<forall>base path params. normalize_path lib url = Returned (base, path, params) \<longrightarrow>
         length params \<le> 1
         \<and> (\<forall>kp \<in> set params. fst kp = ''id'' \<and> p_name (snd kp) = ''id''
                \<and> p_in (snd kp) = ''path''))
   \<and> (\<forall>u. urlparse lib url = Some u \<and> u_path u = ''/users/3/orders/77'' \<longrightarrow>
         normalize_path lib url =
           Returned (u_scheme u @ ''://'' @ u_netloc u, ''/users/{id}/orders/{id}'',
             [(''id'', \<lparr>p_name = ''id'', p_in = ''path'', p_required = Some True,
                        p_schema = Schema (Some ''integer'') None None None None None,
                        p_example = PInt 77\<rparr>)]))
   \<and> (\<forall>n part.
         p_schema (int_param n) = Schema (Some ''integer'') None None None None None
         \<and> p_example (int_param n) = PInt n
         \<and> p_schema (uuid_param part) = Schema (Some ''string'') (Some ''uuid'') None None None None
         \<and> p_example (uuid_param part) = PStr part)"
proof (intro conjI)
  show "normalize_path lib url =
     (case urlparse lib url of
        None \<Rightarrow> Raised
      | Some u \<Rightarrow>
          if list_ex (\<lambda>part. isdigit part \<and> int_of_str part = None)
               (split_on CHR ''/'' (u_path u))
          then Raised
          else Returned
            (u_scheme u @ ''://'' @ u_netloc u,
             join ''/''
               (map (\<lambda>part. if isdigit part \<or> uuid_like part then ''{id}'' else part)
                  (split_on CHR ''/'' (u_path u))),
             let q = filter (\<lambda>part. isdigit part \<or> uuid_like part)
                       (split_on CHR ''/'' (u_path u))
             in if q = [] then []
                else [(''id'', if isdigit (last q) then int_param (int_value (last q))
                               else uuid_param (last q))]))"
    by (rule normalize_path_eq)
  show "\<forall>base path params. normalize_path lib url = Returned (base, path, params) \<longrightarrow>
         length params \<le> 1
         \<and> (\<forall>kp \<in> set params. fst kp = ''id'' \<and> p_name (snd kp) = ''id''
                \<and> p_in (snd kp) = ''path'')"
  proof (intro allI impI)
    fix base path params
    assume r: "normalize_path lib url = Returned (base, path, params)"
    then obtain u where u: "urlparse lib url = Some u"
      by (cases "urlparse lib url") (simp_all add: normalize_path_def)
    let ?q = "filter (\<lambda>part. isdigit part \<or> uuid_like part) (split_on CHR ''/'' (u_path u))"
    have "params = (if ?q = [] then []
        else [(''id'', if isdigit (last ?q) then int_param (int_value (last ?q))
                       else uuid_param (last ?q))])"
      using r unfolding normalize_path_eq[of lib url] u
      by (simp add: Let_def split: if_splits)
    then show "length params \<le> 1
         \<and> (\<forall>kp \<in> set params. fst kp = ''id'' \<and> p_name (snd kp) = ''id''
                \<and> p_in (snd kp) = ''path'')"
      by (simp add: int_param_def uuid_param_def)
  qed
  show "\<forall>u. urlparse lib url = Some u \<and> u_path u = ''/users/3/orders/77'' \<longrightarrow>
         normalize_path lib url =
           Returned (u_scheme u @ ''://'' @ u_netloc u, ''/users/{id}/orders/{id}'',
             [(''id'', \<lparr>p_name = ''id'', p_in = ''path'', p_required = Some True,
                        p_schema = Schema (Some ''integer'') None None None None None,
                        p_example = PInt 77\<rparr>)])"
  proof (intro allI impI)
    fix u
    assume a: "urlparse lib url = Some u \<and> u_path u = ''/users/3/orders/77''"
    have sp: "split_on CHR ''/'' ''/users/3/orders/77'' = ['''', ''users'', ''3'', ''orders'', ''77'']"
      by code_simp
    have ok: "\<not> list_ex (\<lambda>part. isdigit part \<and> int_of_str part = None)
        ['''', ''users'', ''3'', ''orders'', ''77'']"
      by code_simp
    have q: "filter (\<lambda>part. isdigit part \<or> uuid_like part)
        ['''', ''users'', ''3'', ''orders'', ''77''] = [''3'', ''77'']"
      by code_simp
    have m: "map (\<lambda>part. if isdigit part \<or> uuid_like part then ''{id}'' else part)
        ['''', ''users'', ''3'', ''orders'', ''77''] = ['''', ''users'', ''{id}'', ''orders'', ''{id}'']"
      by code_simp
    have d: "isdigit ''77''" and i: "int_value ''77'' = 77"
      by code_simp+
    show "normalize_path lib url =
           Returned (u_scheme u @ ''://'' @ u_netloc u, ''/users/{id}/orders/{id}'',
             [(''id'', \<lparr>p_name = ''id'', p_in = ''path'', p_required = Some True,
                        p_schema = Schema (Some ''integer'') None None None None None,
                        p_example = PInt 77\<rparr>)])"
    proof -
      from a have u: "urlparse lib url = Some u" and pth: "u_path u = ''/users/3/orders/77''"
        by simp_all
      have "normalize_path lib url =
          Returned (u_scheme u @ ''://'' @ u_netloc u,
            join ''/'' ['''', ''users'', ''{id}'', ''orders'', ''{id}''],
            if [''3'', ''77''] = [] then []
            else [(''id'', if isdigit (last [''3'', ''77''])
                           then int_param (int_value (last [''3'', ''77'']))
                           else uuid_param (last [''3'', ''77'']))])"
        by (simp only: normalize_path_eq[of lib url] u option.case pth sp ok if_False q m Let_def)
      also have "\<dots> =
          Returned (u_scheme u @ ''://'' @ u_netloc u, ''/users/{id}/orders/{id}'',
             [(''id'', \<lparr>p_name = ''id'', p_in = ''path'', p_required = Some True,
                        p_schema = Schema (Some ''integer'') None None None None None,
                        p_example = PInt 77\<rparr>)])"
        by (simp add: d i int_param_def)
      finally show ?thesis .
    qed
  qed
  show "\<forall>n part.
         p_schema (int_param n) = Schema (Some ''integer'') None None None None None
         \<and> p_example (int_param n) = PInt n
         \<and> p_schema (uuid_param part) = Schema (Some ''string'') (Some ''uuid'') None None None None
         \<and> p_example (uuid_param part) = PStr part"
    by (simp add: int_param_def uuid_param_def)
qed

theorem normalize_path_single_id_witness:
  "normalize_path ref_lib ''/users/3/orders/77''
     = Returned (''://'', ''/users/{id}/orders/{id}'',
         [(''id'', \<lparr>p_name = ''id'', p_in = ''path'', p_required = Some True,
                    p_schema = Schema (Some ''integer'') None None None None None,
                    p_example = PInt 77\<rparr>)])
   \<and> normalize_path ref_lib ''https://api.example.com/files/550e8400-e29b-41d4-a716-446655440000''
     = Returned (''https://api.example.com'', ''/files/{id}'',
         [(''id'', \<lparr>p_name = ''id'', p_in = ''path'', p_required = Some True,
                    p_schema = Schema (Some ''string'') (Some ''uuid'') None None None None,
                    p_example = PStr ''550e8400-e29b-41d4-a716-446655440000''\<rparr>)])
   \<and> normalize_path ref_lib ''/k/12345678901234567890123456789012''
     = Returned (''://'', ''/k/{id}'',
         [(''id'', \<lparr>p_name = ''id'', p_in = ''path'', p_required = Some True,
                    p_schema = Schema (Some ''integer'') None None None None None,
                    p_example = PInt 12345678901234567890123456789012\<rparr>)])
   \<and> normalize_path ref_lib (''/a/'' @ [CHR 0xB2]) = Raised
   \<and> length [(''id'', int_param 77)] \<le> 1"
proof -
  let ?R = "\<lambda>url.
     (case urlparse ref_lib url of
        None \<Rightarrow> Raised
      | Some u \<Rightarrow>
          if list_ex (\<lambda>part. isdigit part \<and> int_of_str part = None)
               (split_on CHR ''/'' (u_path u))
          then Raised
          else Returned
            (u_scheme u @ ''://'' @ u_netloc u,
             join ''/''
               (map (\<lambda>part. if isdigit part \<or> uuid_like part then ''{id}'' else part)
                  (split_on CHR ''/'' (u_path u))),
             let q = filter (\<lambda>part. isdigit part \<or> uuid_like part)
                       (split_on CHR ''/'' (u_path u))
             in if q = [] then []
                else [(''id'', if isdigit (last q) then int_param (int_value (last q))
                               else uuid_param (last q))]))"
  have eq: "normalize_path ref_lib url = ?R url" for url
    by (rule conjunct1 [OF normalize_path_single_id [of ref_lib url]])
  have "?R ''/users/3/orders/77''
     = Returned (''://'', ''/users/{id}/orders/{id}'',
         [(''id'', \<lparr>p_name = ''id'', p_in = ''path'', p_required = Some True,
                    p_schema = Schema (Some ''integer'') None None None None None,
                    p_example = PInt 77\<rparr>)])"
    by code_simp
  then have n: "normalize_path ref_lib ''/users/3/orders/77''
     = Returned (''://'', ''/users/{id}/orders/{id}'',
         [(''id'', \<lparr>p_name = ''id'', p_in = ''path'', p_required = Some True,
                    p_schema = Schema (Some ''integer'') None None None None None,
                    p_example = PInt 77\<rparr>)])"
    by (simp only: eq)
  have "?R ''https://api.example.com/files/550e8400-e29b-41d4-a716-446655440000''
     = Returned (''https://api.example.com'', ''/files/{id}'',
         [(''id'', \<lparr>p_name = ''id'', p_in = ''path'', p_required = Some True,
                    p_schema = Schema (Some ''string'') (Some ''uuid'') None None None None,
                    p_example = PStr ''550e8400-e29b-41d4-a716-446655440000''\<rparr>)])"
    by code_simp
  then have f: "normalize_path ref_lib
       ''https://api.example.com/files/550e8400-e29b-41d4-a716-446655440000''
     = Returned (''https://api.example.com'', ''/files/{id}'',
         [(''id'', \<lparr>p_name = ''id'', p_in = ''path'', p_required = Some True,
                    p_schema = Schema (Some ''string'') (Some ''uuid'') None None None None,
                    p_example = PStr ''550e8400-e29b-41d4-a716-446655440000''\<rparr>)])"
    by (simp only: eq)
  have "?R ''/k/12345678901234567890123456789012''
     = Returned (''://'', ''/k/{id}'',
         [(''id'', \<lparr>p_name = ''id'', p_in = ''path'', p_required = Some True,
                    p_schema = Schema (Some ''integer'') None None None None None,
                    p_example = PInt 12345678901234567890123456789012\<rparr>)])"
    by code_simp
  then have k: "normalize_path ref_lib ''/k/12345678901234567890123456789012''
     = Returned (''://'', ''/k/{id}'',
         [(''id'', \<lparr>p_name = ''id'', p_in = ''path'', p_required = Some True,
                    p_schema = Schema (Some ''integer'') None None None None None,
                    p_example = PInt 12345678901234567890123456789012\<rparr>)])"
    by (simp only: eq)
  have "?R (''/a/'' @ [CHR 0xB2]) = Raised"
    by code_simp
  then have s: "normalize_path ref_lib (''/a/'' @ [CHR 0xB2]) = Raised"
    by (simp only: eq)
  have "\<forall>base path params.
        normalize_path ref_lib ''/users/3/orders/77'' = Returned (base, path, params) \<longrightarrow>
         length params \<le> 1
         \<and> (\<forall>kp \<in> set params. fst kp = ''id'' \<and> p_name (snd kp) = ''id''
                \<and> p_in (snd kp) = ''path'')"
    by (rule conjunct1 [OF conjunct2 [OF normalize_path_single_id
          [of ref_lib "''/users/3/orders/77''"]]])
  with n have l: "length [(''id'', int_param 77)] \<le> 1"
    by simp
  show ?thesis
    using n f k s l by (simp only: simp_thms)
qed

text \<open>Claim C6 as first stated gives every all-digit segment of every URL the
  placeholder and an integer-typed parameter. On a segment of 4301 decimal digits
  \<^verbatim>\<open>int\<close> raises, and so does the normalizer: there is no path and no parameter.\<close>

theorem too_many_digits_counterexample:
  "list_all is_decimal (replicate 4301 (CHR ''1''))
   \<and> isdigit (replicate 4301 (CHR ''1''))
   \<and> urlparse ref_lib (''/k/'' @ replicate 4301 (CHR ''1''))
       = Some \<lparr>u_scheme = [], u_netloc = [],
               u_path = ''/k/'' @ replicate 4301 (CHR ''1''), u_query = []\<rparr>
   \<and> normalize_path ref_lib (''/k/'' @ replicate 4301 (CHR ''1'')) = Raised"
proof -
  let ?seg = "replicate 4301 (CHR ''1'')"
  have dec: "list_all is_decimal ?seg"
    by (simp add: list_all_iff is_decimal_def)
  then have dig: "isdigit ?seg"
    by (simp add: isdigit_def is_digit_def list_all_iff)
  have rej: "int_of_str ?seg = None"
    by (simp add: int_of_str_def max_str_digits_def)
  have up: "urlparse ref_lib (''/k/'' @ ?seg)
       = Some \<lparr>u_scheme = [], u_netloc = [], u_path = ''/k/'' @ ?seg, u_query = []\<rparr>"
    by (simp add: ref_lib_def ref_urlparse_def Let_def)
  have "split_on CHR ''/'' ?seg = [?seg]"
    by (rule split_on_no_sep) simp
  then have sp: "split_on CHR ''/'' (''/k/'' @ ?seg) = ['''', ''k'', ?seg]"
    by simp
  have "list_ex (\<lambda>part. isdigit part \<and> int_of_str part = None) ['''', ''k'', ?seg]"
    using dig rej by simp
  then have "normalize_path ref_lib (''/k/'' @ ?seg) = Raised"
    unfolding normalize_path_eq[of ref_lib "''/k/'' @ ?seg"] up
    by (simp only: option.case url_parts.simps sp if_True)
  with dec dig up show ?thesis
    by blast
qed

section \<open>Merging a repeated path and method\<close>

text \<open>
  A merge changes nothing of an operation but its parameter list; so the summary,
  responses and request body stored under a path and method are those of the first
  exchange parsed to that pair. And when the names of the stored parameters are
  pairwise distinct, the merged list is the stored list followed by the new
  parameters.
\<close>

lemma merge_operation_keeps:
  "op_summary (merge_operation stored parameters) = op_summary stored
   \<and> op_responses (merge_operation stored parameters) = op_responses stored
   \<and> op_requestBody (merge_operation stored parameters) = op_requestBody stored"
  by (simp add: merge_operation_def Let_def)

lemma stored_operation_step:
  assumes "parse_network_request lib request = Some p"
  shows "stored_operation (aggregate_step lib st request) path method =
     (if path = pr_path p \<and> method = pr_method p
      then Some (case stored_operation st path method of
                   Some stored \<Rightarrow> merge_operation stored (parameters_of p)
                 | None \<Rightarrow> operation_of p)
      else stored_operation st path method)"
  using assms
  by (auto simp: aggregate_step_def stored_operation_def Let_def dict_get_def update_conv'
      split: option.splits)

lemma stored_operation_skip:
  assumes "parse_network_request lib request = None"
  shows "stored_operation (aggregate_step lib st request) path method
       = stored_operation st path method"
  using assms by (simp add: aggregate_step_def)

lemma first_seen_wins_from:
  "map_option frame (stored_operation (aggregate lib st requests) path method) =
     (case stored_operation st path method of
        Some stored \<Rightarrow> Some (frame stored)
      | None \<Rightarrow>
          map_option (\<lambda>p. frame (operation_of p))
            (find (\<lambda>p. pr_path p = path \<and> pr_method p = method)
               (List.map_filter (parse_network_request lib) requests)))"
proof (induction requests arbitrary: st)
  case Nil
  show ?case by (simp add: List.map_filter_simps split: option.splits)
next
  case (Cons r requests)
  show ?case
  proof (cases "parse_network_request lib r")
    case None
    then show ?thesis
      by (simp add: Cons.IH stored_operation_skip List.map_filter_simps comp_def split: option.splits)
  next
    case (Some p)
    have "map_option frame (stored_operation (aggregate lib st (r # requests)) path method)
        = (case stored_operation (aggregate_step lib st r) path method of
             Some stored \<Rightarrow> Some (frame stored)
           | None \<Rightarrow>
               map_option (\<lambda>p. frame (operation_of p))
                 (find (\<lambda>p. pr_path p = path \<and> pr_method p = method)
                    (List.map_filter (parse_network_request lib) requests)))"
      by (simp add: Cons.IH)
    also have "\<dots> =
          (case stored_operation st path method of
             Some stored \<Rightarrow> Some (frame stored)
           | None \<Rightarrow>
               map_option (\<lambda>p. frame (operation_of p))
                 (find (\<lambda>p. pr_path p = path \<and> pr_method p = method)
                    (List.map_filter (parse_network_request lib) (r # requests))))"
    proof (cases "path = pr_path p \<and> method = pr_method p")
      case True
      then show ?thesis
        by (simp add: stored_operation_step[OF Some] List.map_filter_simps Some frame_def
            merge_operation_keeps split: option.splits)
    next
      case False
      then show ?thesis
        by (auto simp: stored_operation_step[OF Some] List.map_filter_simps Some
            split: option.splits)
    qed
    finally show ?thesis .
  qed
qed

lemma update_fresh: "k \<notin> fst ` set d \<Longrightarrow> AList.update k v d = d @ [(k, v)]"
  by (induction d) auto

lemma existing_params_distinct:
  assumes "distinct (map p_name ps)" and "set (map p_name ps) \<inter> fst ` set d = {}"
  shows "foldl (\<lambda>d p. AList.update (p_name p) p d) d ps = d @ map (\<lambda>p. (p_name p, p)) ps"
  using assms
proof (induction ps arbitrary: d)
  case Nil
  show ?case by simp
next
  case (Cons p ps)
  have fresh: "p_name p \<notin> fst ` set d"
    using Cons.prems(2) by auto
  have "foldl (\<lambda>d p. AList.update (p_name p) p d) (d @ [(p_name p, p)]) ps
      = (d @ [(p_name p, p)]) @ map (\<lambda>p. (p_name p, p)) ps"
    using Cons.prems by (intro Cons.IH) auto
  then show ?case
    by (simp add: update_fresh[OF fresh])
qed

lemma foldl_add_param:
  "foldl add_param d ps = d @ map (\<lambda>p. (p_name p, p)) (new_params (map fst d) ps)"
proof (induction ps arbitrary: d)
  case Nil
  show ?case by simp
next
  case (Cons p ps)
  have step: "foldl add_param d (p # ps) = foldl add_param (add_param d p) ps"
    by simp
  show ?case
  proof (cases "p_name p \<in> fst ` set d")
    case True
    then obtain x where "map_of d (p_name p) = Some x"
      by (cases "map_of d (p_name p)") (simp_all add: map_of_eq_None_iff)
    then have "add_param d p = d"
      by (simp add: add_param_def)
    then show ?thesis
      using True unfolding step by (simp add: Cons.IH)
  next
    case False
    then have "map_of d (p_name p) = None"
      by (simp add: map_of_eq_None_iff)
    then have "add_param d p = d @ [(p_name p, p)]"
      using False by (simp add: add_param_def update_fresh)
    then show ?thesis
      using False unfolding step by (simp add: Cons.IH)
  qed
qed

lemma merge_operation_appends:
  assumes "distinct (map p_name (case op_parameters stored of None \<Rightarrow> [] | Some ps \<Rightarrow> ps))"
  shows "op_parameters (merge_operation stored parameters) =
     (let old = (case op_parameters stored of None \<Rightarrow> [] | Some ps \<Rightarrow> ps);
          merged = old @ new_params (map p_name old) parameters
      in if merged = [] then op_parameters stored else Some merged)"
proof -
  let ?old = "case op_parameters stored of None \<Rightarrow> [] | Some ps \<Rightarrow> ps"
  have e: "existing_params_of stored = map (\<lambda>p. (p_name p, p)) ?old"
    unfolding existing_params_of_def
    using existing_params_distinct[OF assms, of "[]"] by simp
  let ?merged = "?old @ new_params (map p_name ?old) parameters"
  have m: "foldl add_param (existing_params_of stored) parameters
      = map (\<lambda>p. (p_name p, p)) ?merged"
    by (simp add: foldl_add_param e comp_def)
  show ?thesis
  proof (cases "?merged = []")
    case True
    have "foldl add_param (existing_params_of stored) parameters = []"
      unfolding m True by simp
    then have same: "merge_operation stored parameters = stored"
      by (simp add: merge_operation_def)
    show ?thesis
      unfolding Let_def by (simp only: same True refl if_True)
  next
    case False
    have "map (\<lambda>p. (p_name p, p)) ?merged \<noteq> []"
      using False by (simp only: map_is_Nil_conv not_False_eq_True)
    then have "foldl add_param (existing_params_of stored) parameters \<noteq> []"
      unfolding m .
    then have "op_parameters (merge_operation stored parameters)
        = Some (map snd (foldl add_param (existing_params_of stored) parameters))"
      by (simp add: merge_operation_def Let_def)
    also have "\<dots> = Some ?merged"
      unfolding m by (simp add: comp_def)
    finally have merged: "op_parameters (merge_operation stored parameters) = Some ?merged" .
    show ?thesis
      unfolding Let_def by (simp only: merged False if_False)
  qed
qed

text \<open>
  Claim C1 says that a repeat of a path and method only appends to the stored
  parameter list the parameters with new names and leaves the stored ones untouched.
  That holds when the stored names are pairwise distinct (\<open>merge_operation_appends\<close>),
  and fails otherwise. The exchange \<open>get_user_with_id_query\<close> has the path segment \<^verbatim>\<open>3\<close>
  and the query key \<^verbatim>\<open>id\<close>: aggregated once it stores a path parameter and a query
  parameter, both named \<^verbatim>\<open>id\<close>; aggregated twice, the repeat adds nothing, and the
  stored path parameter is gone.
\<close>

theorem merge_loses_stored_parameter:
  "sp_paths (generate_openapi_spec ref_lib [get_user_with_id_query] ''Generated API'' ''1.0.0'')
     = [(''/users/{id}'', [(''get'',
          \<lparr>op_summary = ''GET /users/{id}'',
           op_responses = [(''200'', \<lparr>re_description = ''Successful response'',
                                       re_content = None\<rparr>)],
           op_parameters = Some
             [\<lparr>p_name = ''id'', p_in = ''path'', p_required = Some True,
               p_schema = Schema (Some ''integer'') None None None None None,
               p_example = PInt 3\<rparr>,
              \<lparr>p_name = ''id'', p_in = ''query'', p_required = None,
               p_schema = Schema (Some ''string'') None None None None None,
               p_example = PStr ''5''\<rparr>],
           op_requestBody = None\<rparr>)])]
   \<and> sp_paths (generate_openapi_spec ref_lib [get_user_with_id_query, get_user_with_id_query]
         ''Generated API'' ''1.0.0'')
     = [(''/users/{id}'', [(''get'',
          \<lparr>op_summary = ''GET /users/{id}'',
           op_responses = [(''200'', \<lparr>re_description = ''Successful response'',
                                       re_content = None\<rparr>)],
           op_parameters = Some
             [\<lparr>p_name = ''id'', p_in = ''query'', p_required = None,
               p_schema = Schema (Some ''string'') None None None None None,
               p_example = PStr ''5''\<rparr>],
           op_requestBody = None\<rparr>)])]"
  by code_simp

text \<open>
  Claim C2 says that the names in the parameter list of a stored operation are
  pairwise distinct. The operation stored for the single exchange
  \<open>get_user_with_id_query\<close> has two parameters named \<^verbatim>\<open>id\<close>, one in the path and one in
  the query.
\<close>

theorem first_sight_duplicate_names:
  "map (\<lambda>entry. map (\<lambda>m. map_option (map (\<lambda>p. (p_name p, p_in p))) (op_parameters (snd m)))
                   (snd entry))
     (sp_paths (generate_openapi_spec ref_lib [get_user_with_id_query] ''Generated API'' ''1.0.0''))
     = [[Some [(''id'', ''path''), (''id'', ''query'')]]]
   \<and> \<not> distinct (map fst [(''id'', ''path''), (''id'', ''query'')])"
  by code_simp

section \<open>Bodies that are not JSON\<close>

lemma parse_request_body_cases:
  assumes "\<forall>s. rq_postData request = Some s \<longrightarrow> json_loads lib s \<noteq> OtherError"
  shows "\<exists>rb. parse_request_body lib request = Returned rb
           \<and> (\<forall>s. rq_postData request = Some s \<and> json_loads lib s = JSONDecodeError
                  \<longrightarrow> rb = None)"
  using assms
  by (cases "rq_postData request")
     (auto simp: parse_request_body_def Let_def split: loads_result.splits)

lemma parse_response_cases:
  assumes "\<forall>r s. rq_response request = Some r \<and> rs_body r = Some s
             \<longrightarrow> json_loads lib s \<noteq> OtherError"
  shows "\<exists>rsp. parse_response lib request = Returned rsp
           \<and> (\<forall>r s. rq_response request = Some r \<and> rs_body r = Some s
                    \<and> json_loads lib s = JSONDecodeError
                  \<longrightarrow> rsp = generic_responses)"
proof (cases "rq_response request")
  case None
  then show ?thesis
    by (simp add: parse_response_def Let_def)
next
  case (Some r)
  show ?thesis
  proof (cases "rs_body r")
    case None
    with Some show ?thesis
      by (simp add: parse_response_def Let_def)
  next
    case (Some s)
    with \<open>rq_response request = Some r\<close> assms have "json_loads lib s \<noteq> OtherError"
      by blast
    with Some \<open>rq_response request = Some r\<close> show ?thesis
      by (cases "json_loads lib s") (simp_all add: parse_response_def Let_def)
  qed
qed

lemma parse_returns:
  assumes "\<not> is_static (url_of request)"
      and "urlparse lib (url_of request) = Some u"
      and "\<forall>part \<in> set (split_on CHR ''/'' (u_path u)). isdigit part \<longrightarrow> int_of_str part \<noteq> None"
      and "parse_request_body lib request = Returned rb"
      and "parse_response lib request = Returned rsp"
  shows "\<exists>p. parse_network_request lib request = Some p
           \<and> pr_base_url p = u_scheme u @ ''://'' @ u_netloc u
           \<and> pr_request_body p = rb \<and> pr_responses p = rsp"
proof -
  have "\<not> list_ex (\<lambda>part. isdigit part \<and> int_of_str part = None)
      (split_on CHR ''/'' (u_path u))"
    using assms(3) by (auto simp: list_ex_iff)
  then obtain path params where
    "normalize_path lib (url_of request) = Returned (u_scheme u @ ''://'' @ u_netloc u, path, params)"
    unfolding normalize_path_eq[of lib "url_of request"] using assms(2) by simp
  then show ?thesis
    using assms(1,2,4,5) by (simp add: parse_network_request_def Let_def)
qed

lemma map_of_sort_key:
  assumes "distinct (map fst xs)"
  shows "map_of (sort_key fst xs) = map_of xs"
proof -
  have "distinct (map fst (sort_key fst xs))"
    using assms by (simp add: distinct_map)
  moreover have "set (sort_key fst xs) = set xs"
    by simp
  ultimately show ?thesis
    using assms by (simp add: map_of_inject_set)
qed

text \<open>A parsed exchange of the list shows in the document: its origin is a server, its
  path is a path, and an operation stands under its path and method.\<close>

lemma parsed_exchange_contributes:
  assumes "request \<in> set requests" and "parse_network_request lib request = Some p"
  shows "pr_base_url p \<in> set (sp_servers (generate_openapi_spec lib requests title version))"
    and "pr_path p \<in> set (map fst (sp_paths (generate_openapi_spec lib requests title version)))"
    and "\<exists>methods operation.
           map_of (sp_paths (generate_openapi_spec lib requests title version)) (pr_path p)
             = Some methods
           \<and> map_of methods (pr_method p) = Some operation"
proof -
  let ?st = "aggregate lib acc_empty requests"
  have fin: "finite (acc_servers ?st)"
    by (rule finite_aggregate_servers) (simp add: acc_empty_def)
  have "pr_base_url p \<in> acc_servers ?st"
    using assms by (auto simp: aggregate_servers)
  then show "pr_base_url p \<in> set (sp_servers (generate_openapi_spec lib requests title version))"
    using fin by (simp add: generate_openapi_spec_def Let_def)
  have "pr_path p \<in> fst ` set (acc_paths ?st)"
    using assms by (auto simp: aggregate_keys)
  then show "pr_path p \<in> set (map fst (sp_paths (generate_openapi_spec lib requests title version)))"
    by (simp add: generate_openapi_spec_def Let_def)
  have dist: "distinct (map fst (acc_paths ?st))"
    by (rule aggregate_distinct) (simp add: acc_empty_def)
  have "p \<in> set (List.map_filter (parse_network_request lib) requests)"
    using assms by (force simp: List.map_filter_def)
  then have "find (\<lambda>p'. pr_path p' = pr_path p \<and> pr_method p' = pr_method p)
      (List.map_filter (parse_network_request lib) requests) \<noteq> None"
    by (auto simp: find_None_iff)
  moreover have "stored_operation acc_empty (pr_path p) (pr_method p) = None"
    by (simp add: stored_operation_def acc_empty_def)
  ultimately have "map_option frame (stored_operation ?st (pr_path p) (pr_method p)) \<noteq> None"
    unfolding first_seen_wins_from[of lib acc_empty requests "pr_path p" "pr_method p"]
    by simp
  then obtain operation where "stored_operation ?st (pr_path p) (pr_method p) = Some operation"
    by (cases "stored_operation ?st (pr_path p) (pr_method p)") simp_all
  then obtain methods where "map_of (acc_paths ?st) (pr_path p) = Some methods"
    and "map_of methods (pr_method p) = Some operation"
    by (auto simp: stored_operation_def split: option.splits)
  then show "\<exists>methods operation.
           map_of (sp_paths (generate_openapi_spec lib requests title version)) (pr_path p)
             = Some methods
           \<and> map_of methods (pr_method p) = Some operation"
    using map_of_sort_key[OF dist] by (auto simp: generate_openapi_spec_def Let_def)
qed

text \<open>An exception of the decoder other than \<^verbatim>\<open>JSONDecodeError\<close> is caught by the
  handler around the whole parser, and only then is the exchange dropped.\<close>

lemma unexpected_error_dropped:
  assumes "rq_postData request = Some s" and "s \<noteq> []"
      and "str_in ''application/json''
             (dict_get (case rq_requestHeaders request of None \<Rightarrow> [] | Some h \<Rightarrow> h)
                ''content-type'' [])"
      and "json_loads lib s = OtherError"
  shows "parse_network_request lib request = None \<and> aggregate_step lib st request = st"
proof -
  have "parse_request_body lib request = Raised"
    using assms by (simp add: parse_request_body_def Let_def)
  then have "parse_network_request lib request = None"
    by (simp add: parse_network_request_def Let_def split: outcome.splits option.splits)
  then show ?thesis
    by (simp add: aggregate_step_skip)
qed

text \<open>
  Claim C3, as amended. An exchange whose request or response body text fails to parse
  as JSON is not dropped for that. When its URL names no static asset and nothing
  raises but \<^verbatim>\<open>JSONDecodeError\<close> (\<^verbatim>\<open>urlparse\<close> accepts the URL, \<^verbatim>\<open>int\<close> accepts every
  all-digit segment of the path, the decoder raises no other exception on the
  bodies), the parser returns a descriptor; a request body that failed to parse is
  left out of it, a response body that failed to parse gives the generic \<^verbatim>\<open>"200"\<close>
  entry; and in the document generated from any list of exchanges with this one in
  it, the origin of the exchange is among the servers, its path is among the paths,
  and an operation stands under its path and method.
\<close>

theorem undecodable_body_not_dropped:
  assumes "\<not> is_static (url_of request)"
      and "urlparse lib (url_of request) = Some u"
      and "\<forall>part \<in> set (split_on CHR ''/'' (u_path u)). isdigit part \<longrightarrow> int_of_str part \<noteq> None"
      and "\<forall>s. rq_postData request = Some s \<longrightarrow> json_loads lib s \<noteq> OtherError"
      and "\<forall>r s. rq_response request = Some r \<and> rs_body r = Some s
             \<longrightarrow> json_loads lib s \<noteq> OtherError"
      and "request \<in> set requests"
  shows "\<exists>p. parse_network_request lib request = Some p
           \<and> (\<forall>s. rq_postData request = Some s \<and> json_loads lib s = JSONDecodeError
                  \<longrightarrow> pr_request_body p = None)
           \<and> (\<forall>r s. rq_response request = Some r \<and> rs_body r = Some s
                    \<and> json_loads lib s = JSONDecodeError
                  \<longrightarrow> pr_responses p =
                        [(''200'', \<lparr>re_description = ''Successful response'',
                                    re_content = None\<rparr>)])
           \<and> u_scheme u @ ''://'' @ u_netloc u
               \<in> set (sp_servers (generate_openapi_spec lib requests title version))
           \<and> pr_path p
               \<in> set (map fst (sp_paths (generate_openapi_spec lib requests title version)))
           \<and> (\<exists>methods operation.
                 map_of (sp_paths (generate_openapi_spec lib requests title version)) (pr_path p)
                   = Some methods
                 \<and> map_of methods (pr_method p) = Some operation)"
proof -
  from parse_request_body_cases[OF assms(4)] obtain rb where
    rb: "parse_request_body lib request = Returned rb"
    and rb_none: "\<forall>s. rq_postData request = Some s \<and> json_loads lib s = JSONDecodeError
                  \<longrightarrow> rb = None"
    by blast
  from parse_response_cases[OF assms(5)] obtain rsp where
    rsp: "parse_response lib request = Returned rsp"
    and rsp_gen: "\<forall>r s. rq_response request = Some r \<and> rs_body r = Some s
                    \<and> json_loads lib s = JSONDecodeError
                  \<longrightarrow> rsp = generic_responses"
    by blast
  from parse_returns[OF assms(1,2,3) rb rsp] obtain p where
    p: "parse_network_request lib request = Some p"
    and base: "pr_base_url p = u_scheme u @ ''://'' @ u_netloc u"
    and body: "pr_request_body p = rb" and resp: "pr_responses p = rsp"
    by blast
  have sv: "u_scheme u @ ''://'' @ u_netloc u
      \<in> set (sp_servers (generate_openapi_spec lib requests title version))"
    using parsed_exchange_contributes(1)[OF assms(6) p] base by simp
  have pt: "pr_path p
      \<in> set (map fst (sp_paths (generate_openapi_spec lib requests title version)))"
    by (rule parsed_exchange_contributes(2)[OF assms(6) p])
  have op: "\<exists>methods operation.
       map_of (sp_paths (generate_openapi_spec lib requests title version)) (pr_path p)
         = Some methods
       \<and> map_of methods (pr_method p) = Some operation"
    by (rule parsed_exchange_contributes(3)[OF assms(6) p])
  have b: "\<forall>s. rq_postData request = Some s \<and> json_loads lib s = JSONDecodeError
                  \<longrightarrow> pr_request_body p = None"
    using rb_none body by simp
  have g: "\<forall>r s. rq_response request = Some r \<and> rs_body r = Some s
                    \<and> json_loads lib s = JSONDecodeError
                  \<longrightarrow> pr_responses p =
                        [(''200'', \<lparr>re_description = ''Successful response'',
                                    re_content = None\<rparr>)]"
    using rsp_gen resp by (simp add: generic_responses_def)
  show ?thesis
    using p b g sv pt op by blast
qed

theorem undecodable_body_not_dropped_witness:
  "post_with_bad_json \<in> set [get_orders, post_with_bad_json, get_logo_png]
   \<and> rq_postData post_with_bad_json = Some ''{''
   \<and> json_loads ref_lib ''{'' = JSONDecodeError
   \<and> json_loads ref_lib ''not json'' = JSONDecodeError
   \<and> parse_network_request ref_lib post_with_bad_json
       = Some \<lparr>pr_base_url = ''https://api.example.com'', pr_path = ''/items'',
               pr_method = ''post'', pr_path_params = [], pr_query_params = [],
               pr_request_body = None,
               pr_responses = [(''200'', \<lparr>re_description = ''Successful response'',
                                           re_content = None\<rparr>)]\<rparr>
   \<and> ''https://api.example.com''
       \<in> set (sp_servers (generate_openapi_spec ref_lib
                 [get_orders, post_with_bad_json, get_logo_png] ''Generated API'' ''1.0.0''))
   \<and> ''/items''
       \<in> set (map fst (sp_paths (generate_openapi_spec ref_lib
                 [get_orders, post_with_bad_json, get_logo_png] ''Generated API'' ''1.0.0'')))"
proof -
  let ?u = "\<lparr>u_scheme = ''https'', u_netloc = ''api.example.com'', u_path = ''/items'',
             u_query = []\<rparr>"
  let ?p = "\<lparr>pr_base_url = ''https://api.example.com'', pr_path = ''/items'',
               pr_method = ''post'', pr_path_params = [], pr_query_params = [],
               pr_request_body = None,
               pr_responses = [(''200'', \<lparr>re_description = ''Successful response'',
                                           re_content = None\<rparr>)]\<rparr>"
  have ns: "\<not> is_static (url_of post_with_bad_json)"
    by code_simp
  have up: "urlparse ref_lib (url_of post_with_bad_json) = Some ?u"
    by code_simp
  have sp: "split_on CHR ''/'' ''/items'' = ['''', ''items'']"
    by code_simp
  have nd: "\<not> isdigit ''''" "\<not> isdigit ''items''"
    by code_simp+
  have ig: "\<forall>part \<in> set (split_on CHR ''/'' (u_path ?u)). isdigit part \<longrightarrow> int_of_str part \<noteq> None"
    using nd by (simp add: sp)
  have j1: "json_loads ref_lib ''{'' = JSONDecodeError"
    and j2: "json_loads ref_lib ''not json'' = JSONDecodeError"
    by code_simp+
  have pd: "rq_postData post_with_bad_json = Some ''{''"
    by (simp add: post_with_bad_json_def)
  have a4: "\<forall>s. rq_postData post_with_bad_json = Some s \<longrightarrow> json_loads ref_lib s \<noteq> OtherError"
    using j1 by (simp add: post_with_bad_json_def)
  have a5: "\<forall>r s. rq_response post_with_bad_json = Some r \<and> rs_body r = Some s
             \<longrightarrow> json_loads ref_lib s \<noteq> OtherError"
    using j2 by (auto simp: post_with_bad_json_def)
  have mem: "post_with_bad_json \<in> set [get_orders, post_with_bad_json, get_logo_png]"
    by simp
  have p: "parse_network_request ref_lib post_with_bad_json = Some ?p"
    by code_simp
  from undecodable_body_not_dropped [OF ns up ig a4 a5 mem,
      of "''Generated API''" "''1.0.0''"]
  show ?thesis
    using p pd j1 j2 mem by auto
qed

text \<open>Claim C3 as first stated (such an exchange contributes no path and no server)
  fails on the exchange \<open>post_with_bad_json\<close>: neither body is JSON, and the document
  has its origin and its path.\<close>

theorem drop_on_undecodable_body_counterexample:
  "rq_postData post_with_bad_json = Some ''{''
   \<and> json_loads ref_lib ''{'' = JSONDecodeError
   \<and> map_option rs_body (rq_response post_with_bad_json) = Some (Some ''not json'')
   \<and> json_loads ref_lib ''not json'' = JSONDecodeError
   \<and> parse_network_request ref_lib post_with_bad_json \<noteq> None
   \<and> sp_servers (generate_openapi_spec ref_lib [post_with_bad_json] ''Generated API'' ''1.0.0'')
       = [''https://api.example.com'']
   \<and> map fst (sp_paths (generate_openapi_spec ref_lib [post_with_bad_json]
         ''Generated API'' ''1.0.0''))
       = [''/items'']"
  by code_simp

end
